theory Spec2Isabelle
  imports Main
begin

section \<open>Data model\<close>

text \<open>
  The views of \<^verbatim>\<open>blog/views.py\<close> work on the tables of \<^verbatim>\<open>blog/models.py\<close> and of the
  user model. A row is a record, a foreign key is the primary key of the row it refers
  to (\<open>None\<close> for a null reference), a table is the list of its rows, and the database
  is a record of the tables. The time is a number of seconds.
\<close>

text \<open>Modelled from the spec: the user model (\<^verbatim>\<open>get_user_model()\<close>; its declaration is not
  among the sources). The fields are those of the spec's data model.\<close>

record user =
  user_pk :: nat
  username :: string
  first_name :: string
  last_name :: string
  email :: string
  password :: string

text \<open>Modelled from the spec: \<^verbatim>\<open>Category\<close> of \<^verbatim>\<open>blog/models.py\<close>, which is not among the
  sources.\<close>

record category =
  category_pk :: nat
  category_title :: string
  slug :: string
  category_is_published :: bool

text \<open>Modelled from the spec: \<^verbatim>\<open>Post\<close> of \<^verbatim>\<open>blog/models.py\<close>, which is not among the
  sources. \<open>author\<close>, \<open>category\<close> and \<open>location\<close> are foreign keys; the last two may be
  null.\<close>

record post =
  post_pk :: nat
  title :: string
  post_text :: string
  pub_date :: int
  is_published :: bool
  author :: nat
  category :: "nat option"
  location :: "nat option"
  image :: "string option"
  created_at :: int

text \<open>Modelled from the spec: \<^verbatim>\<open>Comment\<close> of \<^verbatim>\<open>blog/models.py\<close>, which is not among the
  sources.\<close>

record comment =
  comment_pk :: nat
  comment_text :: string
  comment_author :: nat
  comment_post :: nat
  comment_created_at :: int

record db =
  users :: "user list"
  categories :: "category list"
  posts :: "post list"
  comments :: "comment list"

section \<open>The framework operations the views call\<close>

datatype error = Http404 | PermissionDenied | MultipleObjectsReturned

text \<open>\<^verbatim>\<open>QuerySet.get()\<close> on the rows a query selects, as the views use it (through
  \<^verbatim>\<open>get_object_or_404\<close> and \<^verbatim>\<open>SingleObjectMixin.get_object\<close>, which both turn
  \<^verbatim>\<open>DoesNotExist\<close> into \<^verbatim>\<open>Http404\<close> and let \<^verbatim>\<open>MultipleObjectsReturned\<close> through).\<close>

fun get :: "'a list \<Rightarrow> error + 'a" where
  "get [] = Inl Http404"
| "get [x] = Inr x"
| "get (x # y # zs) = Inl MultipleObjectsReturned"

definition get_object_or_404 :: "'a list \<Rightarrow> ('a \<Rightarrow> bool) \<Rightarrow> error + 'a" where
  "get_object_or_404 objects cond = get (filter cond objects)"

text \<open>\<^verbatim>\<open>annotate(comment_count=Count('comments'))\<close>: every post of the query with the
  number of comments whose \<open>post\<close> is this post.\<close>

definition Count_comments :: "db \<Rightarrow> post \<Rightarrow> nat" where
  "Count_comments d p = length (filter (\<lambda>c. comment_post c = post_pk p) (comments d))"

definition annotate_comment_count :: "db \<Rightarrow> post list \<Rightarrow> (post \<times> nat) list" where
  "annotate_comment_count d ps = map (\<lambda>p. (p, Count_comments d p)) ps"

text \<open>\<^verbatim>\<open>order_by('-pub_date')\<close>. The database leaves the order of rows with equal
  \<open>pub_date\<close> open; the model keeps them in table order (a stable sort).\<close>

definition order_by_pub_date_desc :: "(post \<times> nat) list \<Rightarrow> (post \<times> nat) list" where
  "order_by_pub_date_desc rows = sort_key (\<lambda>r. - pub_date (fst r)) rows"

text \<open>Following the \<open>category\<close> foreign key of a post (the join behind
  \<^verbatim>\<open>category__is_published\<close>).\<close>

definition category_of :: "db \<Rightarrow> post \<Rightarrow> category option" where
  "category_of d p =
     (case category p of
        None \<Rightarrow> None
      | Some k \<Rightarrow> find (\<lambda>c. category_pk c = k) (categories d))"

section \<open>The listings\<close>

text \<open>\<^verbatim>\<open>PostListView.get_queryset\<close>; \<open>now\<close> is \<^verbatim>\<open>timezone.now()\<close>.\<close>

definition PostListView_get_queryset :: "db \<Rightarrow> int \<Rightarrow> (post \<times> nat) list" where
  "PostListView_get_queryset d now =
     order_by_pub_date_desc
       (filter (\<lambda>r. is_published (fst r)
                  \<and> (case category_of d (fst r) of
                        None \<Rightarrow> False
                      | Some c \<Rightarrow> category_is_published c)
                  \<and> pub_date (fst r) \<le> now)
          (annotate_comment_count d (posts d)))"

text \<open>\<^verbatim>\<open>CategoryListView.get_queryset\<close>.\<close>

definition CategoryListView_get_queryset ::
  "db \<Rightarrow> int \<Rightarrow> string \<Rightarrow> error + (post \<times> nat) list" where
  "CategoryListView_get_queryset d now category_slug =
     (case get_object_or_404 (categories d)
             (\<lambda>c. slug c = category_slug \<and> category_is_published c) of
        Inl e \<Rightarrow> Inl e
      | Inr cat \<Rightarrow>
          Inr (order_by_pub_date_desc
                 (annotate_comment_count d
                    (filter (\<lambda>p. category p = Some (category_pk cat)
                               \<and> is_published p
                               \<and> pub_date p \<le> now)
                       (posts d)))))"

text \<open>\<^verbatim>\<open>ProfileDetailView\<close>: \<^verbatim>\<open>get_object\<close> looks the user up by \<open>username\<close> in
  \<^verbatim>\<open>get_queryset()\<close>, whose prefetch gives \<^verbatim>\<open>self.object.posts.all()\<close>: the posts of
  the user, annotated and ordered.\<close>

definition ProfileDetailView_get_object :: "db \<Rightarrow> string \<Rightarrow> error + user" where
  "ProfileDetailView_get_object d name = get (filter (\<lambda>u. username u = name) (users d))"

definition profile_posts :: "db \<Rightarrow> user \<Rightarrow> (post \<times> nat) list" where
  "profile_posts d u =
     order_by_pub_date_desc
       (annotate_comment_count d (filter (\<lambda>p. author p = user_pk u) (posts d)))"

section \<open>Pagination\<close>

text \<open>A text is a list of characters; a character is a code point below 256.\<close>

text \<open>\<^verbatim>\<open>django.core.paginator\<close>, with \<^verbatim>\<open>orphans=0\<close> and
  \<^verbatim>\<open>allow_empty_first_page=True\<close> as both uses in the views have them. The argument of
  \<^verbatim>\<open>validate_number\<close> is what the caller passes: \<^verbatim>\<open>None\<close>, a string or an integer.

  Python's \<^verbatim>\<open>int()\<close> on a string is the parameter \<open>int_of_str\<close> of the functions below,
  with \<open>None\<close> for \<^verbatim>\<open>ValueError\<close>. Which texts it reads, and as which integer, is the
  interpreter's matter (the whitespace it skips, signs, grouping of digits, digits of
  other scripts, a limit on the number of digits); the views only ask whether it reads
  the text and what integer it gives.\<close>

datatype page_arg = PyNone | PyStr string | PyInt int

datatype invalid_page = PageNotAnInteger | EmptyPage

record 'a page =
  object_list :: "'a list"
  number :: int
  paginator_num_pages :: int

definition num_pages :: "'a list \<Rightarrow> nat \<Rightarrow> int" where
  "num_pages objs per_page = int ((max 1 (length objs) + per_page - 1) div per_page)"

definition validate_number ::
  "(string \<Rightarrow> int option) \<Rightarrow> 'a list \<Rightarrow> nat \<Rightarrow> page_arg \<Rightarrow> invalid_page + int" where
  "validate_number int_of_str objs per_page arg =
     (case (case arg of PyNone \<Rightarrow> None | PyStr s \<Rightarrow> int_of_str s | PyInt n \<Rightarrow> Some n) of
        None \<Rightarrow> Inl PageNotAnInteger
      | Some n \<Rightarrow>
          if n < 1 then Inl EmptyPage
          else if n > num_pages objs per_page then Inl EmptyPage
          else Inr n)"

definition Paginator_page ::
  "(string \<Rightarrow> int option) \<Rightarrow> 'a list \<Rightarrow> nat \<Rightarrow> page_arg \<Rightarrow> invalid_page + 'a page" where
  "Paginator_page int_of_str objs per_page arg =
     (case validate_number int_of_str objs per_page arg of
        Inl e \<Rightarrow> Inl e
      | Inr n \<Rightarrow>
          let bottom = (nat n - 1) * per_page;
              top = (if bottom + per_page \<ge> length objs then length objs
                     else bottom + per_page)
          in Inr \<lparr>object_list = take (top - bottom) (drop bottom objs),
                   number = n,
                   paginator_num_pages = num_pages objs per_page\<rparr>)"

definition get_page ::
  "(string \<Rightarrow> int option) \<Rightarrow> 'a list \<Rightarrow> nat \<Rightarrow> page_arg \<Rightarrow> invalid_page + 'a page" where
  "get_page int_of_str objs per_page arg =
     Paginator_page int_of_str objs per_page
       (PyInt (case validate_number int_of_str objs per_page arg of
                 Inl PageNotAnInteger \<Rightarrow> 1
               | Inl EmptyPage \<Rightarrow> num_pages objs per_page
               | Inr n \<Rightarrow> n))"

definition has_next :: "'a page \<Rightarrow> bool" where
  "has_next pg = (number pg < paginator_num_pages pg)"

definition has_previous :: "'a page \<Rightarrow> bool" where
  "has_previous pg = (number pg > 1)"

text \<open>\<^verbatim>\<open>MultipleObjectMixin.paginate_queryset\<close>, which a \<^verbatim>\<open>ListView\<close> with
  \<^verbatim>\<open>paginate_by\<close> runs; \<open>page\<close> is \<^verbatim>\<open>request.GET.get('page')\<close>. A missing or empty
  parameter is page 1 (\<^verbatim>\<open>or 1\<close>); a text that \<^verbatim>\<open>int()\<close> does not read is the last page
  when it is the word \<^verbatim>\<open>last\<close> and \<^verbatim>\<open>Http404\<close> otherwise.\<close>

definition paginate_queryset ::
  "(string \<Rightarrow> int option) \<Rightarrow> 'a list \<Rightarrow> nat \<Rightarrow> string option \<Rightarrow> error + 'a page" where
  "paginate_queryset int_of_str queryset page_size page =
     (case (case page of
              None \<Rightarrow> Some 1
            | Some s \<Rightarrow>
                if s = [] then Some 1
                else (case int_of_str s of
                        Some n \<Rightarrow> Some n
                      | None \<Rightarrow>
                          if s = ''last'' then Some (num_pages queryset page_size)
                          else None)) of
        None \<Rightarrow> Inl Http404
      | Some page_number \<Rightarrow>
          (case Paginator_page int_of_str queryset page_size (PyInt page_number) of
             Inl e \<Rightarrow> Inl Http404
           | Inr pg \<Rightarrow> Inr pg))"

definition paginate_by :: nat where
  "paginate_by = 10"

text \<open>The three listing views on a \<^verbatim>\<open>GET\<close> request.\<close>

definition PostListView_get ::
  "(string \<Rightarrow> int option) \<Rightarrow> db \<Rightarrow> int \<Rightarrow> string option \<Rightarrow> error + (post \<times> nat) page" where
  "PostListView_get int_of_str d now page =
     paginate_queryset int_of_str (PostListView_get_queryset d now) paginate_by page"

definition CategoryListView_get ::
  "(string \<Rightarrow> int option) \<Rightarrow> db \<Rightarrow> int \<Rightarrow> string \<Rightarrow> string option
     \<Rightarrow> error + (post \<times> nat) page" where
  "CategoryListView_get int_of_str d now category_slug page =
     (case CategoryListView_get_queryset d now category_slug of
        Inl e \<Rightarrow> Inl e
      | Inr qs \<Rightarrow> paginate_queryset int_of_str qs paginate_by page)"

definition ProfileDetailView_get_context_data ::
  "(string \<Rightarrow> int option) \<Rightarrow> db \<Rightarrow> user \<Rightarrow> string option
     \<Rightarrow> invalid_page + (post \<times> nat) page" where
  "ProfileDetailView_get_context_data int_of_str d object page =
     get_page int_of_str (profile_posts d object) 10
       (case page of None \<Rightarrow> PyNone | Some s \<Rightarrow> PyStr s)"

datatype 'a outcome = Raised error | Invalid_page invalid_page | Rendered 'a

definition ProfileDetailView_get ::
  "(string \<Rightarrow> int option) \<Rightarrow> db \<Rightarrow> string \<Rightarrow> string option
     \<Rightarrow> (user \<times> (post \<times> nat) page) outcome" where
  "ProfileDetailView_get int_of_str d name page =
     (case ProfileDetailView_get_object d name of
        Inl e \<Rightarrow> Raised e
      | Inr u \<Rightarrow>
          (case ProfileDetailView_get_context_data int_of_str d u page of
             Inl e \<Rightarrow> Invalid_page e
           | Inr pg \<Rightarrow> Rendered (u, pg)))"

section \<open>Requests, responses and the access mixins\<close>

text \<open>\<^verbatim>\<open>request.user\<close> is the row of the logged-in user, \<open>None\<close> for
  \<^verbatim>\<open>AnonymousUser\<close>. A redirect names its route as the views do with \<^verbatim>\<open>reverse_lazy\<close>
  and \<^verbatim>\<open>redirect\<close>; \<open>Login\<close> is the login page of \<^verbatim>\<open>redirect_to_login\<close>. A view returns
  its response, or the exception it raised, together with the database it leaves.\<close>

datatype http_method = GET | POST

record request =
  request_method :: http_method
  request_user :: "user option"

datatype url = Index | Profile string | Post_detail nat | Login

datatype response = HttpResponseRedirect url | TemplateResponse string

type_synonym result = "(error + response) \<times> db"

definition is_authenticated :: "request \<Rightarrow> bool" where
  "is_authenticated req = (request_user req \<noteq> None)"

text \<open>\<^verbatim>\<open>AccessMixin.handle_no_permission\<close> (\<^verbatim>\<open>raise_exception\<close> is not set by the views).\<close>

definition handle_no_permission :: "request \<Rightarrow> error + response" where
  "handle_no_permission req =
     (if is_authenticated req then Inl PermissionDenied
      else Inr (HttpResponseRedirect Login))"

definition LoginRequiredMixin_dispatch :: "request \<Rightarrow> db \<Rightarrow> result \<Rightarrow> result" where
  "LoginRequiredMixin_dispatch req d super_dispatch =
     (if \<not> is_authenticated req then (handle_no_permission req, d)
      else super_dispatch)"

definition UserPassesTestMixin_dispatch ::
  "request \<Rightarrow> db \<Rightarrow> error + bool \<Rightarrow> result \<Rightarrow> result" where
  "UserPassesTestMixin_dispatch req d user_test_result super_dispatch =
     (case user_test_result of
        Inl e \<Rightarrow> (Inl e, d)
      | Inr ok \<Rightarrow> if \<not> ok then (handle_no_permission req, d) else super_dispatch)"

text \<open>\<^verbatim>\<open>AuthorRequiredMixin.test_func\<close> of \<^verbatim>\<open>blog/mixins.py\<close>:
  \<^verbatim>\<open>self.get_object().author == self.request.user\<close>. Two model instances are equal when
  their primary keys are; \<open>author_of\<close> reads the author key of the object.\<close>

definition AuthorRequiredMixin_test_func ::
  "request \<Rightarrow> ('a \<Rightarrow> nat) \<Rightarrow> error + 'a \<Rightarrow> error + bool" where
  "AuthorRequiredMixin_test_func req author_of get_object =
     (case get_object of
        Inl e \<Rightarrow> Inl e
      | Inr obj \<Rightarrow>
          Inr (case request_user req of
                 None \<Rightarrow> False
               | Some u \<Rightarrow> author_of obj = user_pk u))"

text \<open>\<^verbatim>\<open>login_required\<close>, the decorator of \<^verbatim>\<open>add_comment\<close>.\<close>

definition login_required :: "request \<Rightarrow> db \<Rightarrow> result \<Rightarrow> result" where
  "login_required req d view =
     (if is_authenticated req then view else (Inr (HttpResponseRedirect Login), d))"

section \<open>Saving and deleting rows\<close>

text \<open>\<^verbatim>\<open>Model.save()\<close> of an instance that has a primary key: the row with that key is
  replaced, and the instance is inserted when no row has it. \<open>next_pk\<close> is the key an
  insert gives a new instance.\<close>

definition save :: "('a \<Rightarrow> nat) \<Rightarrow> 'a \<Rightarrow> 'a list \<Rightarrow> 'a list" where
  "save pk obj rows =
     (if list_ex (\<lambda>r. pk r = pk obj) rows
      then map (\<lambda>r. if pk r = pk obj then obj else r) rows
      else rows @ [obj])"

definition next_pk :: "('a \<Rightarrow> nat) \<Rightarrow> 'a list \<Rightarrow> nat" where
  "next_pk pk rows = Suc (fold max (map pk rows) 0)"

text \<open>Modelled from the spec: deleting a post removes its comments (the \<^verbatim>\<open>on_delete\<close> of
  \<^verbatim>\<open>Comment.post\<close> is declared in \<^verbatim>\<open>blog/models.py\<close>, which is not among the sources).\<close>

definition delete_post :: "post \<Rightarrow> db \<Rightarrow> db" where
  "delete_post p d =
     d\<lparr>posts := filter (\<lambda>q. post_pk q \<noteq> post_pk p) (posts d),
       comments := filter (\<lambda>c. comment_post c \<noteq> post_pk p) (comments d)\<rparr>"

definition delete_comment :: "comment \<Rightarrow> db \<Rightarrow> db" where
  "delete_comment c d =
     d\<lparr>comments := filter (\<lambda>x. comment_pk x \<noteq> comment_pk c) (comments d)\<rparr>"

definition Post_get_object :: "db \<Rightarrow> nat \<Rightarrow> error + post" where
  "Post_get_object d pk = get (filter (\<lambda>p. post_pk p = pk) (posts d))"

definition Comment_get_object :: "db \<Rightarrow> nat \<Rightarrow> error + comment" where
  "Comment_get_object d comment_id = get (filter (\<lambda>c. comment_pk c = comment_id) (comments d))"

section \<open>The date field of the post form\<close>

text \<open>\<^verbatim>\<open>PostForm.pub_date\<close> of \<^verbatim>\<open>blog/forms.py\<close> is a \<^verbatim>\<open>DateTimeField\<close> with
  \<^verbatim>\<open>input_formats=['%d.%m.%Y']\<close>; its widget prints a value with the format
  \<^verbatim>\<open>'%d.%m.%Y %H:%M:%S'\<close>. The field parses with \<^verbatim>\<open>datetime.strptime\<close>, which turns
  the format into a regular expression (one group of alternatives for each directive,
  tried in the order written), takes the first match at the start of the text and
  raises \<^verbatim>\<open>ValueError\<close> when text remains after it or the date does not exist.\<close>

text \<open>Characters. \<open>is_space\<close> is the whitespace of \<^verbatim>\<open>str.strip()\<close> and of \<^verbatim>\<open>\s\<close> in a
  regular expression, among the code points below 256: the space, the controls 9 to 13
  and 28 to 31, and the code points 133 and 160.\<close>

definition is_digit :: "char \<Rightarrow> bool" where
  "is_digit c = (c \<in> set ''0123456789'')"

definition digit_val :: "char \<Rightarrow> nat" where
  "digit_val c = of_char c - of_char CHR ''0''"

definition is_space :: "char \<Rightarrow> bool" where
  "is_space c = (c = CHR '' '' \<or> (9 \<le> (of_char c :: nat) \<and> (of_char c :: nat) \<le> 13)
                 \<or> (28 \<le> (of_char c :: nat) \<and> (of_char c :: nat) \<le> 31)
                 \<or> (of_char c :: nat) = 133 \<or> (of_char c :: nat) = 160)"

text \<open>\<^verbatim>\<open>str.strip()\<close>.\<close>

definition strip :: "string \<Rightarrow> string" where
  "strip s = rev (dropWhile is_space (rev (dropWhile is_space s)))"

record datetime =
  year :: nat
  month :: nat
  day :: nat
  hour :: nat
  minute :: nat
  second :: nat

datatype token = Literal char | Directive char | Whitespace

fun tokens :: "string \<Rightarrow> token list" where
  "tokens [] = []"
| "tokens [c] = [if is_space c then Whitespace else Literal c]"
| "tokens (c # e # cs) =
     (if c = CHR ''%'' then Directive e # tokens cs
      else if is_space c then Whitespace # tokens (e # cs)
      else Literal c # tokens (e # cs))"

text \<open>A run of whitespace in the format is one \<^verbatim>\<open>\s+\<close> of the expression.\<close>

fun collapse :: "token list \<Rightarrow> token list" where
  "collapse (Whitespace # Whitespace # ts) = collapse (Whitespace # ts)"
| "collapse (t # ts) = t # collapse ts"
| "collapse [] = []"

text \<open>One alternative of a directive is a list of character classes, each the string
  of the characters it admits.\<close>

definition digits_of :: "string \<Rightarrow> nat" where
  "digits_of s = fold (\<lambda>c n. 10 * n + digit_val c) (filter is_digit s) 0"

definition match_alternative :: "string list \<Rightarrow> string \<Rightarrow> (nat \<times> string) option" where
  "match_alternative classes s =
     (if length classes \<le> length s
         \<and> list_all2 (\<lambda>cls c. c \<in> set cls) classes (take (length classes) s)
      then Some (digits_of (take (length classes) s), drop (length classes) s)
      else None)"

definition any_digit :: string where
  "any_digit = ''0123456789''"

fun directive_alternatives :: "char \<Rightarrow> string list list" where
  "directive_alternatives c =
     (if c = CHR ''d'' then
        [[''3'', ''01''], [''12'', any_digit], [''0'', ''123456789''], [''123456789''],
         ['' '', ''123456789'']]
      else if c = CHR ''m'' then
        [[''1'', ''012''], [''0'', ''123456789''], [''123456789'']]
      else if c = CHR ''Y'' then
        [[any_digit, any_digit, any_digit, any_digit]]
      else if c = CHR ''H'' then
        [[''2'', ''0123''], [''01'', any_digit], [any_digit]]
      else if c = CHR ''M'' then
        [[''012345'', any_digit], [any_digit]]
      else if c = CHR ''S'' then
        [[''6'', ''01''], [''012345'', any_digit], [any_digit]]
      else [])"

fun first_match :: "('a \<Rightarrow> 'b option) \<Rightarrow> 'a list \<Rightarrow> 'b option" where
  "first_match f [] = None"
| "first_match f (x # xs) = (case f x of Some y \<Rightarrow> Some y | None \<Rightarrow> first_match f xs)"

text \<open>The first match of the format's expression at the start of \<open>s\<close>: the values of
  the directives and the text left over.\<close>

fun match_tokens ::
  "token list \<Rightarrow> string \<Rightarrow> (char \<times> nat) list \<Rightarrow> ((char \<times> nat) list \<times> string) option" where
  "match_tokens [] s found = Some (found, s)"
| "match_tokens (Literal c # ts) s found =
     (case s of
        [] \<Rightarrow> None
      | x # xs \<Rightarrow> if x = c then match_tokens ts xs found else None)"
| "match_tokens (Whitespace # ts) s found =
     first_match (\<lambda>k. match_tokens ts (drop k s) found)
       (rev [1..<Suc (length (takeWhile is_space s))])"
| "match_tokens (Directive c # ts) s found =
     first_match
       (\<lambda>classes.
          case match_alternative classes s of
            None \<Rightarrow> None
          | Some (v, rest) \<Rightarrow> match_tokens ts rest (found @ [(c, v)]))
       (directive_alternatives c)"

definition is_leap :: "nat \<Rightarrow> bool" where
  "is_leap y = (y mod 4 = 0 \<and> (y mod 100 \<noteq> 0 \<or> y mod 400 = 0))"

definition days_in_month :: "nat \<Rightarrow> nat \<Rightarrow> nat" where
  "days_in_month y m =
     (if m = 2 then (if is_leap y then 29 else 28)
      else if m = 4 \<or> m = 6 \<or> m = 9 \<or> m = 11 then 30
      else 31)"

definition field_value :: "(char \<times> nat) list \<Rightarrow> char \<Rightarrow> nat \<Rightarrow> nat" where
  "field_value found c dflt = (case map_of found c of None \<Rightarrow> dflt | Some v \<Rightarrow> v)"

text \<open>\<^verbatim>\<open>datetime.strptime(s, format)\<close> for formats of the directives
  \<^verbatim>\<open>%d %m %Y %H %M %S\<close>, literal characters and whitespace, which are all that
  the formats of \<^verbatim>\<open>blog/forms.py\<close> use. \<open>None\<close> is \<^verbatim>\<open>ValueError\<close>, also for a
  day the month does not have and for the seconds 60 and 61, which the directive
  matches and \<^verbatim>\<open>datetime\<close> refuses. A field the format does not name takes Python's
  default (the year 1900, the first of January, midnight).\<close>

definition strptime :: "string \<Rightarrow> string \<Rightarrow> datetime option" where
  "strptime s format =
     (if list_ex (\<lambda>t. case t of
                           Directive c \<Rightarrow> directive_alternatives c = []
                         | _ \<Rightarrow> False)
           (tokens format)
      then None
      else
        (case match_tokens (collapse (tokens format)) s [] of
           None \<Rightarrow> None
         | Some (found, rest) \<Rightarrow>
             if rest \<noteq> [] then None
             else
               let y = field_value found CHR ''Y'' 1900;
                   m = field_value found CHR ''m'' 1;
                   dd = field_value found CHR ''d'' 1
               in if y < 1 \<or> dd > days_in_month y m
                     \<or> field_value found CHR ''S'' 0 > 59 then None
                  else Some \<lparr>year = y, month = m, day = dd,
                             hour = field_value found CHR ''H'' 0,
                             minute = field_value found CHR ''M'' 0,
                             second = field_value found CHR ''S'' 0\<rparr>))"

text \<open>\<^verbatim>\<open>DateTimeField.to_python\<close> on the text of the request. The field first asks
  Django's \<^verbatim>\<open>parse_datetime\<close>, a parser of ISO 8601 texts whose grammar is the
  framework's and not the repository's: it is the parameter \<open>parse_datetime\<close>, which
  finds a date and time, finds none (\<open>No_match\<close>) or raises \<^verbatim>\<open>ValueError\<close> for a text of
  the right shape that names no date (\<open>Out_of_range\<close>), which the field reports as
  invalid. When it finds none, the text is stripped and the \<^verbatim>\<open>input_formats\<close> are tried
  in order. \<open>None\<close> is the \<^verbatim>\<open>ValidationError\<close> of an invalid value; an empty value is
  invalid too, the field being required.\<close>

datatype iso_result = No_match | Out_of_range | Parsed datetime

definition DateTimeField_to_python ::
  "(string \<Rightarrow> iso_result) \<Rightarrow> string list \<Rightarrow> string \<Rightarrow> datetime option" where
  "DateTimeField_to_python parse_datetime input_formats v =
     (if strip v = [] then None
      else
        (case parse_datetime (strip v) of
           Parsed dt \<Rightarrow> Some dt
         | Out_of_range \<Rightarrow> None
         | No_match \<Rightarrow> first_match (strptime (strip v)) input_formats))"

definition PostForm_input_formats :: "string list" where
  "PostForm_input_formats = [''%d.%m.%Y'']"

definition PostForm_widget_format :: string where
  "PostForm_widget_format = ''%d.%m.%Y %H:%M:%S''"

text \<open>The number of seconds from 1 January 1970 to a date and time, which is what a
  post stores as its \<open>pub_date\<close>.\<close>

definition days_before_year :: "nat \<Rightarrow> int" where
  "days_before_year y =
     (let z = int y - 1 in z * 365 + z div 4 - z div 100 + z div 400)"

definition days_before_month :: "nat \<Rightarrow> nat \<Rightarrow> int" where
  "days_before_month y m = int (sum_list (map (days_in_month y) [1..<m]))"

definition timestamp :: "datetime \<Rightarrow> int" where
  "timestamp dt =
     (days_before_year (year dt) + days_before_month (year dt) (month dt) + int (day dt)
        - 719163) * 86400
     + int (hour dt) * 3600 + int (minute dt) * 60 + int (second dt)"

section \<open>The forms\<close>

text \<open>The data a request binds to \<^verbatim>\<open>PostForm\<close>, whose fields are \<^verbatim>\<open>title\<close>,
  \<^verbatim>\<open>text\<close>, \<^verbatim>\<open>pub_date\<close>, \<^verbatim>\<open>category\<close>, \<^verbatim>\<open>location\<close> and \<^verbatim>\<open>image\<close>. The date is the
  text as typed; no upload leaves the image of the instance as it is.\<close>

record PostForm_data =
  data_title :: string
  data_text :: string
  data_pub_date :: string
  data_category :: "nat option"
  data_location :: "nat option"
  data_image :: "string option"

text \<open>\<^verbatim>\<open>form.is_valid()\<close> of a \<^verbatim>\<open>PostForm\<close>, giving the cleaned date. The date field
  is declared in \<^verbatim>\<open>blog/forms.py\<close>; the checks of the other fields come from the
  declaration of \<^verbatim>\<open>Post\<close> in \<^verbatim>\<open>blog/models.py\<close>, which is not among the sources: they
  are the parameter \<open>fields_ok\<close>.\<close>

definition PostForm_clean ::
  "(string \<Rightarrow> iso_result) \<Rightarrow> (db \<Rightarrow> PostForm_data \<Rightarrow> bool) \<Rightarrow> db \<Rightarrow> PostForm_data
     \<Rightarrow> datetime option" where
  "PostForm_clean parse_datetime fields_ok d data =
     (case DateTimeField_to_python parse_datetime PostForm_input_formats (data_pub_date data) of
        None \<Rightarrow> None
      | Some dt \<Rightarrow> if fields_ok d data then Some dt else None)"

text \<open>What saving a valid \<^verbatim>\<open>PostForm\<close> writes into its instance.\<close>

definition PostForm_construct_instance :: "post \<Rightarrow> PostForm_data \<Rightarrow> datetime \<Rightarrow> post" where
  "PostForm_construct_instance p data dt =
     p\<lparr>title := data_title data,
       post_text := data_text data,
       pub_date := timestamp dt,
       category := data_category data,
       location := data_location data,
       image := (case data_image data of None \<Rightarrow> image p | Some f \<Rightarrow> Some f)\<rparr>"

text \<open>The data of \<^verbatim>\<open>ProfileUpdateForm\<close>: \<^verbatim>\<open>Meta.fields\<close> names \<^verbatim>\<open>first_name\<close>,
  \<^verbatim>\<open>last_name\<close>, \<^verbatim>\<open>email\<close> and \<^verbatim>\<open>username\<close>, and \<^verbatim>\<open>__init__\<close> removes the
  \<^verbatim>\<open>password\<close> field that \<^verbatim>\<open>UserChangeForm\<close> declares.\<close>

record ProfileUpdateForm_data =
  data_first_name :: string
  data_last_name :: string
  data_email :: string
  data_username :: string

definition ProfileUpdateForm_save :: "user \<Rightarrow> ProfileUpdateForm_data \<Rightarrow> user" where
  "ProfileUpdateForm_save u cleaned =
     u\<lparr>first_name := data_first_name cleaned,
       last_name := data_last_name cleaned,
       email := data_email cleaned,
       username := data_username cleaned\<rparr>"

section \<open>The views that change the database\<close>

text \<open>\<^verbatim>\<open>PostCreateView\<close>. A new post takes its key from the insert, \<open>created_at\<close> from
  the clock and \<open>is_published\<close> from the default of the model, which \<^verbatim>\<open>blog/models.py\<close>
  declares: the parameter \<open>is_published_default\<close>. The success URL is the profile of
  \<^verbatim>\<open>self.object.author\<close>, which the URL prints as the user name.\<close>

definition PostCreateView_form_valid ::
  "bool \<Rightarrow> db \<Rightarrow> int \<Rightarrow> user \<Rightarrow> PostForm_data \<Rightarrow> datetime \<Rightarrow> result" where
  "PostCreateView_form_valid is_published_default d now u data dt =
     (let instance = PostForm_construct_instance
            \<lparr>post_pk = next_pk post_pk (posts d), title = [], post_text = [],
             pub_date = 0, is_published = is_published_default, author = user_pk u,
             category = None, location = None, image = None, created_at = now\<rparr>
            data dt
      in (Inr (HttpResponseRedirect (Profile (username u))),
          d\<lparr>posts := posts d @ [instance]\<rparr>))"

definition PostCreateView ::
  "(string \<Rightarrow> iso_result) \<Rightarrow> (db \<Rightarrow> PostForm_data \<Rightarrow> bool) \<Rightarrow> bool
     \<Rightarrow> db \<Rightarrow> int \<Rightarrow> request \<Rightarrow> PostForm_data \<Rightarrow> result" where
  "PostCreateView parse_datetime fields_ok is_published_default d now req data =
     LoginRequiredMixin_dispatch req d
       (case request_user req of
          None \<Rightarrow> (handle_no_permission req, d)
        | Some u \<Rightarrow>
            (case request_method req of
               GET \<Rightarrow> (Inr (TemplateResponse ''blog/create.html''), d)
             | POST \<Rightarrow>
                 (case PostForm_clean parse_datetime fields_ok d data of
                    None \<Rightarrow> (Inr (TemplateResponse ''blog/create.html''), d)
                  | Some dt \<Rightarrow>
                      PostCreateView_form_valid is_published_default d now u data dt)))"

text \<open>\<^verbatim>\<open>PostUpdateView\<close> and \<^verbatim>\<open>PostDeleteView\<close>: \<^verbatim>\<open>LoginRequiredMixin\<close>, then
  \<^verbatim>\<open>AuthorRequiredMixin\<close>, then the generic view.\<close>

definition PostUpdateView ::
  "(string \<Rightarrow> iso_result) \<Rightarrow> (db \<Rightarrow> PostForm_data \<Rightarrow> bool)
     \<Rightarrow> db \<Rightarrow> request \<Rightarrow> nat \<Rightarrow> PostForm_data \<Rightarrow> result" where
  "PostUpdateView parse_datetime fields_ok d req pk data =
     LoginRequiredMixin_dispatch req d
       (UserPassesTestMixin_dispatch req d
          (AuthorRequiredMixin_test_func req author (Post_get_object d pk))
          (case Post_get_object d pk of
             Inl e \<Rightarrow> (Inl e, d)
           | Inr object \<Rightarrow>
               (case request_method req of
                  GET \<Rightarrow> (Inr (TemplateResponse ''blog/create.html''), d)
                | POST \<Rightarrow>
                    (case PostForm_clean parse_datetime fields_ok d data of
                       None \<Rightarrow> (Inr (TemplateResponse ''blog/create.html''), d)
                     | Some dt \<Rightarrow>
                         (Inr (HttpResponseRedirect (Post_detail (post_pk object))),
                          d\<lparr>posts := save post_pk
                                        (PostForm_construct_instance object data dt)
                                        (posts d)\<rparr>)))))"

definition PostDeleteView :: "db \<Rightarrow> request \<Rightarrow> nat \<Rightarrow> result" where
  "PostDeleteView d req pk =
     LoginRequiredMixin_dispatch req d
       (UserPassesTestMixin_dispatch req d
          (AuthorRequiredMixin_test_func req author (Post_get_object d pk))
          (case Post_get_object d pk of
             Inl e \<Rightarrow> (Inl e, d)
           | Inr object \<Rightarrow>
               (case request_method req of
                  GET \<Rightarrow> (Inr (TemplateResponse ''blog/create.html''), d)
                | POST \<Rightarrow> (Inr (HttpResponseRedirect Index), delete_post object d))))"

text \<open>\<^verbatim>\<open>CommentUpdateView\<close> and \<^verbatim>\<open>CommentDeleteView\<close>, which find the comment by
  \<^verbatim>\<open>comment_id\<close>. The form of the update view has the one field \<^verbatim>\<open>text\<close>, whose check
  comes from the declaration of \<^verbatim>\<open>Comment\<close> in \<^verbatim>\<open>blog/models.py\<close>: the parameter
  \<open>text_clean\<close> gives the cleaned text, or \<open>None\<close> for a text that is not valid.\<close>

definition CommentUpdateView ::
  "(string \<Rightarrow> string option) \<Rightarrow> db \<Rightarrow> request \<Rightarrow> nat \<Rightarrow> string \<Rightarrow> result" where
  "CommentUpdateView text_clean d req comment_id data =
     LoginRequiredMixin_dispatch req d
       (UserPassesTestMixin_dispatch req d
          (AuthorRequiredMixin_test_func req comment_author (Comment_get_object d comment_id))
          (case Comment_get_object d comment_id of
             Inl e \<Rightarrow> (Inl e, d)
           | Inr object \<Rightarrow>
               (case request_method req of
                  GET \<Rightarrow> (Inr (TemplateResponse ''blog/comment.html''), d)
                | POST \<Rightarrow>
                    (case text_clean data of
                       None \<Rightarrow> (Inr (TemplateResponse ''blog/comment.html''), d)
                     | Some t \<Rightarrow>
                         (Inr (HttpResponseRedirect (Post_detail (comment_post object))),
                          d\<lparr>comments := save comment_pk (object\<lparr>comment_text := t\<rparr>)
                                           (comments d)\<rparr>)))))"

definition CommentDeleteView :: "db \<Rightarrow> request \<Rightarrow> nat \<Rightarrow> result" where
  "CommentDeleteView d req comment_id =
     LoginRequiredMixin_dispatch req d
       (UserPassesTestMixin_dispatch req d
          (AuthorRequiredMixin_test_func req comment_author (Comment_get_object d comment_id))
          (case Comment_get_object d comment_id of
             Inl e \<Rightarrow> (Inl e, d)
           | Inr object \<Rightarrow>
               (case request_method req of
                  GET \<Rightarrow> (Inr (TemplateResponse ''blog/comment.html''), d)
                | POST \<Rightarrow>
                    (Inr (HttpResponseRedirect (Post_detail (comment_post object))),
                     delete_comment object d))))"

text \<open>\<^verbatim>\<open>add_comment\<close>. \<open>data\<close> is the \<^verbatim>\<open>text\<close> of \<^verbatim>\<open>request.POST\<close> (empty when the
  request has none); \<open>text_clean\<close> is the check of \<^verbatim>\<open>AddCommentForm\<close>, as above.\<close>

definition add_comment ::
  "(string \<Rightarrow> string option) \<Rightarrow> db \<Rightarrow> int \<Rightarrow> request \<Rightarrow> nat \<Rightarrow> string \<Rightarrow> result" where
  "add_comment text_clean d now req pk data =
     login_required req d
       (case get_object_or_404 (posts d) (\<lambda>p. post_pk p = pk) of
          Inl e \<Rightarrow> (Inl e, d)
        | Inr p \<Rightarrow>
            (case (text_clean data, request_user req) of
               (Some t, Some u) \<Rightarrow>
                 (Inr (HttpResponseRedirect (Post_detail (post_pk p))),
                  d\<lparr>comments := comments d @
                       [\<lparr>comment_pk = next_pk comment_pk (comments d), comment_text = t,
                         comment_author = user_pk u, comment_post = post_pk p,
                         comment_created_at = now\<rparr>]\<rparr>)
             | _ \<Rightarrow> (Inr (HttpResponseRedirect (Post_detail (post_pk p))), d)))"

text \<open>Modelled from the spec: the check of the comment text, which the declaration of
  \<^verbatim>\<open>Comment\<close> in \<^verbatim>\<open>blog/models.py\<close> decides and which is not among the sources: a text is
  valid when it is not empty.\<close>

definition nonempty_text :: "string \<Rightarrow> string option" where
  "nonempty_text t = (if t = [] then None else Some t)"

text \<open>\<^verbatim>\<open>ProfileUpdateView\<close>: \<^verbatim>\<open>get_object\<close> is \<^verbatim>\<open>request.user\<close>. The checks of the four
  fields come from the user model: the parameter \<open>profile_clean\<close> gives the cleaned
  data, or \<open>None\<close> when the form is not valid.\<close>

definition ProfileUpdateView ::
  "(db \<Rightarrow> user \<Rightarrow> ProfileUpdateForm_data \<Rightarrow> ProfileUpdateForm_data option)
     \<Rightarrow> db \<Rightarrow> request \<Rightarrow> ProfileUpdateForm_data \<Rightarrow> result" where
  "ProfileUpdateView profile_clean d req data =
     LoginRequiredMixin_dispatch req d
       (case request_user req of
          None \<Rightarrow> (handle_no_permission req, d)
        | Some object \<Rightarrow>
            (case request_method req of
               GET \<Rightarrow> (Inr (TemplateResponse ''blog/user.html''), d)
             | POST \<Rightarrow>
                 (case profile_clean d object data of
                    None \<Rightarrow> (Inr (TemplateResponse ''blog/user.html''), d)
                  | Some cleaned \<Rightarrow>
                      (Inr (HttpResponseRedirect
                              (Profile (username (ProfileUpdateForm_save object cleaned)))),
                       d\<lparr>users := save user_pk (ProfileUpdateForm_save object cleaned)
                                     (users d)\<rparr>))))"

section \<open>The detail view of a post\<close>

text \<open>\<^verbatim>\<open>PostDetailView\<close>: the post with the key of the URL and its comments. The view
  has no access mixin and its queryset is every post.\<close>

definition PostDetailView :: "db \<Rightarrow> request \<Rightarrow> nat \<Rightarrow> error + post \<times> comment list" where
  "PostDetailView d req pk =
     (case Post_get_object d pk of
        Inl e \<Rightarrow> Inl e
      | Inr object \<Rightarrow>
          Inr (object, filter (\<lambda>c. comment_post c = post_pk object) (comments d)))"

section \<open>Example data\<close>

text \<open>A small database on which the theorems below are instantiated: two users, a
  published and an unpublished category, and posts that differ in what hides them. The
  clock of the examples stands at \<open>example_now\<close>; 1577836800 is 1 January 2020.\<close>

definition alice :: user where
  "alice = \<lparr>user_pk = 1, username = ''alice'', first_name = ''Alice'', last_name = ''A'',
            email = ''alice@example.org'', password = ''hash1''\<rparr>"

definition bob :: user where
  "bob = \<lparr>user_pk = 2, username = ''bob'', first_name = ''Bob'', last_name = ''B'',
          email = ''bob@example.org'', password = ''hash2''\<rparr>"

definition news :: category where
  "news = \<lparr>category_pk = 1, category_title = ''News'', slug = ''news'',
           category_is_published = True\<rparr>"

definition drafts :: category where
  "drafts = \<lparr>category_pk = 2, category_title = ''Drafts'', slug = ''drafts'',
             category_is_published = False\<rparr>"

definition post_A :: post where
  "post_A = \<lparr>post_pk = 5, title = ''A'', post_text = ''first'', pub_date = 1577836800,
             is_published = True, author = 1, category = Some 1, location = None,
             image = None, created_at = 1577000000\<rparr>"

definition post_unpublished :: post where
  "post_unpublished = post_A\<lparr>post_pk := 6, title := ''B'', is_published := False,
                             pub_date := 1577923200\<rparr>"

definition post_hidden_category :: post where
  "post_hidden_category = post_A\<lparr>post_pk := 7, title := ''C'', category := Some 2,
                                 author := 2\<rparr>"

definition post_future :: post where
  "post_future = post_A\<lparr>post_pk := 8, title := ''D'', pub_date := 4102444800\<rparr>"

definition post_by_bob :: post where
  "post_by_bob = post_A\<lparr>post_pk := 9, title := ''E'', author := 2, pub_date := 1580000000\<rparr>"

definition comment_1 :: comment where
  "comment_1 = \<lparr>comment_pk = 1, comment_text = ''hello'', comment_author = 2,
                comment_post = 5, comment_created_at = 1578000000\<rparr>"

definition comment_2 :: comment where
  "comment_2 = \<lparr>comment_pk = 2, comment_text = ''thanks'', comment_author = 1,
                comment_post = 5, comment_created_at = 1578000100\<rparr>"

definition example_db :: db where
  "example_db =
     \<lparr>users = [alice, bob],
      categories = [news, drafts],
      posts = [post_A, post_unpublished, post_hidden_category, post_future, post_by_bob],
      comments = [comment_1, comment_2]\<rparr>"

definition example_now :: int where
  "example_now = 1600000000"

text \<open>The instance of \<open>int_of_str\<close> in the examples: it reads an optional sign followed
  by one to 4300 ASCII decimal digits, and no other text.\<close>

definition ascii_digits :: "string \<Rightarrow> nat option" where
  "ascii_digits s =
     (if s \<noteq> [] \<and> length s \<le> 4300 \<and> list_all is_digit s
      then Some (fold (\<lambda>c n. 10 * n + digit_val c) s 0)
      else None)"

definition ascii_int :: "string \<Rightarrow> int option" where
  "ascii_int s =
     (case s of
        [] \<Rightarrow> None
      | c # cs \<Rightarrow>
          if c = CHR ''-'' then map_option (\<lambda>n. - int n) (ascii_digits cs)
          else if c = CHR ''+'' then map_option int (ascii_digits cs)
          else map_option int (ascii_digits s))"

text \<open>A database whose 25 posts are all visible, all by the first user.\<close>

definition numbered_post :: "nat \<Rightarrow> post" where
  "numbered_post i = post_A\<lparr>post_pk := i, pub_date := int i\<rparr>"

definition archive_db :: db where
  "archive_db =
     \<lparr>users = [alice, bob], categories = [news], posts = map numbered_post [1..<26],
      comments = []\<rparr>"

lemmas example_defs =
  example_db_def example_now_def alice_def bob_def news_def drafts_def post_A_def
  post_unpublished_def post_hidden_category_def post_future_def post_by_bob_def
  comment_1_def comment_2_def

section \<open>Lemmas on queries\<close>

lemma set_order_by_pub_date_desc:
  "set (order_by_pub_date_desc rows) = set rows"
  by (simp add: order_by_pub_date_desc_def)

lemma order_by_pub_date_desc_descending:
  "sorted_wrt (\<lambda>a b. pub_date (fst b) \<le> pub_date (fst a)) (order_by_pub_date_desc rows)"
proof -
  have "sorted (map (\<lambda>r. - pub_date (fst r)) (order_by_pub_date_desc rows))"
    by (simp add: order_by_pub_date_desc_def)
  then show ?thesis
    by (simp add: sorted_map)
qed

lemma filter_key_unique:
  assumes "distinct (map f xs)" and "x \<in> set xs"
  shows "filter (\<lambda>y. f y = f x) xs = [x]"
  using assms
proof (induction xs)
  case Nil
  then show ?case by simp
next
  case (Cons a xs)
  show ?case
  proof (cases "a = x")
    case True
    have "filter (\<lambda>y. f y = f x) xs = []"
    proof -
      have "\<forall>y \<in> set xs. f y \<noteq> f x"
        using Cons.prems(1) True by (metis distinct.simps(2) imageI list.simps(9) set_map)
      then show ?thesis by (simp add: filter_empty_conv)
    qed
    with True show ?thesis by simp
  next
    case False
    with Cons.prems have "x \<in> set xs" and "f a \<noteq> f x" and "distinct (map f xs)"
      by auto
    with Cons.IH show ?thesis by simp
  qed
qed

lemma find_key_unique:
  assumes "distinct (map f xs)" and "x \<in> set xs"
  shows "find (\<lambda>y. f y = f x) xs = Some x"
  using assms
proof (induction xs)
  case Nil
  then show ?case by simp
next
  case (Cons a xs)
  then show ?case by (cases "a = x") auto
qed

section \<open>The index listing\<close>

text \<open>
  Claim C1. At every time \<open>now\<close>, the index listing holds a post, with its count of
  comments, exactly when the post is a row of the table whose \<open>is_published\<close> is true,
  whose category exists and has \<open>is_published\<close> true and whose \<open>pub_date\<close> is not after
  \<open>now\<close>; the count is the number of comments on that post; and the rows come with
  \<open>pub_date\<close> descending.
\<close>

theorem index_listing_visible_annotated_ordered:
  "((p, n) \<in> set (PostListView_get_queryset d now) \<longleftrightarrow>
      p \<in> set (posts d) \<and> is_published p
      \<and> (\<exists>c. category_of d p = Some c \<and> category_is_published c)
      \<and> pub_date p \<le> now
      \<and> n = length (filter (\<lambda>c. comment_post c = post_pk p) (comments d)))
   \<and> sorted_wrt (\<lambda>a b. pub_date (fst b) \<le> pub_date (fst a))
        (PostListView_get_queryset d now)"
proof
  show "(p, n) \<in> set (PostListView_get_queryset d now) \<longleftrightarrow>
      p \<in> set (posts d) \<and> is_published p
      \<and> (\<exists>c. category_of d p = Some c \<and> category_is_published c)
      \<and> pub_date p \<le> now
      \<and> n = length (filter (\<lambda>c. comment_post c = post_pk p) (comments d))"
    unfolding PostListView_get_queryset_def set_order_by_pub_date_desc
      annotate_comment_count_def Count_comments_def
    by (auto split: option.splits)
  show "sorted_wrt (\<lambda>a b. pub_date (fst b) \<le> pub_date (fst a))
        (PostListView_get_queryset d now)"
    unfolding PostListView_get_queryset_def
    by (rule order_by_pub_date_desc_descending)
qed

theorem index_listing_example:
  "(post_A, 2) \<in> set (PostListView_get_queryset example_db example_now)
   \<and> (post_unpublished, 0) \<notin> set (PostListView_get_queryset example_db example_now)
   \<and> (post_hidden_category, 0) \<notin> set (PostListView_get_queryset example_db example_now)
   \<and> (post_future, 0) \<notin> set (PostListView_get_queryset example_db example_now)
   \<and> sorted_wrt (\<lambda>a b. pub_date (fst b) \<le> pub_date (fst a))
        (PostListView_get_queryset example_db example_now)"
  using index_listing_visible_annotated_ordered [of post_A 2 example_db example_now]
    index_listing_visible_annotated_ordered [of post_unpublished 0 example_db example_now]
    index_listing_visible_annotated_ordered [of post_hidden_category 0 example_db example_now]
    index_listing_visible_annotated_ordered [of post_future 0 example_db example_now]
  by (simp add: example_defs category_of_def)

lemma filter_key_and:
  assumes "distinct (map f xs)" and "x \<in> set xs"
  shows "filter (\<lambda>y. f y = f x \<and> P y) xs = (if P x then [x] else [])"
proof -
  have "filter (\<lambda>y. f y = f x \<and> P y) xs = filter P (filter (\<lambda>y. f y = f x) xs)"
    by (simp add: conj_commute)
  also have "\<dots> = filter P [x]"
    using assms by (simp add: filter_key_unique)
  finally show ?thesis by simp
qed

lemma category_lookup:
  assumes "distinct (map slug (categories d))"
  shows "get_object_or_404 (categories d) (\<lambda>c. slug c = s \<and> category_is_published c) =
           (case find (\<lambda>c. slug c = s) (categories d) of
              None \<Rightarrow> Inl Http404
            | Some c \<Rightarrow> if category_is_published c then Inr c else Inl Http404)"
proof (cases "find (\<lambda>c. slug c = s) (categories d)")
  case None
  then have "\<forall>c \<in> set (categories d). slug c \<noteq> s"
    by (simp add: find_None_iff)
  then have "filter (\<lambda>c. slug c = s \<and> category_is_published c) (categories d) = []"
    by (simp add: filter_empty_conv)
  with None show ?thesis by (simp add: get_object_or_404_def)
next
  case (Some c)
  then have c: "c \<in> set (categories d)" and s: "slug c = s"
    by (auto simp: find_Some_iff)
  show ?thesis
    using filter_key_and [OF assms c, of category_is_published] Some s
    by (simp add: get_object_or_404_def)
qed

lemma category_rows_membership:
  "(p, n) \<in> set (order_by_pub_date_desc
                 (annotate_comment_count d
                    (filter (\<lambda>p. category p = Some k \<and> is_published p \<and> pub_date p \<le> now)
                       (posts d)))) \<longleftrightarrow>
     p \<in> set (posts d) \<and> category p = Some k \<and> is_published p \<and> pub_date p \<le> now
     \<and> n = length (filter (\<lambda>x. comment_post x = post_pk p) (comments d))"
  unfolding set_order_by_pub_date_desc annotate_comment_count_def Count_comments_def
  by auto

section \<open>The category listing\<close>

text \<open>
  Claim C3. Slugs and keys of categories being unique, the category listing of a slug
  fails with \<open>Http404\<close> exactly when no category has the slug or the category with the
  slug has \<open>is_published\<close> false. Otherwise it returns rows: exactly the posts of that
  category whose \<open>is_published\<close> is true, whose category is published and whose
  \<open>pub_date\<close> is not after \<open>now\<close>, each with the number of its comments, with
  \<open>pub_date\<close> descending.
\<close>

theorem category_listing_not_found_or_visible_posts:
  assumes "distinct (map slug (categories d))"
    and "distinct (map category_pk (categories d))"
  shows "(CategoryListView_get_queryset d now s = Inl Http404 \<longleftrightarrow>
            (\<forall>c \<in> set (categories d). slug c \<noteq> s)
            \<or> (\<exists>c \<in> set (categories d). slug c = s \<and> \<not> category_is_published c))
       \<and> (\<forall>c \<in> set (categories d). slug c = s \<and> category_is_published c \<longrightarrow>
            (\<exists>rows. CategoryListView_get_queryset d now s = Inr rows
               \<and> (\<forall>p n. (p, n) \<in> set rows \<longleftrightarrow>
                     p \<in> set (posts d) \<and> category p = Some (category_pk c)
                     \<and> is_published p
                     \<and> (\<exists>c'. category_of d p = Some c' \<and> category_is_published c')
                     \<and> pub_date p \<le> now
                     \<and> n = length (filter (\<lambda>x. comment_post x = post_pk p) (comments d)))
               \<and> sorted_wrt (\<lambda>a b. pub_date (fst b) \<le> pub_date (fst a)) rows))"
proof (intro conjI ballI impI)
  show "CategoryListView_get_queryset d now s = Inl Http404 \<longleftrightarrow>
            (\<forall>c \<in> set (categories d). slug c \<noteq> s)
            \<or> (\<exists>c \<in> set (categories d). slug c = s \<and> \<not> category_is_published c)"
  proof (cases "find (\<lambda>c. slug c = s) (categories d)")
    case None
    then have "\<forall>c \<in> set (categories d). slug c \<noteq> s"
      by (simp add: find_None_iff)
    moreover have "CategoryListView_get_queryset d now s = Inl Http404"
      using None by (simp add: CategoryListView_get_queryset_def category_lookup [OF assms(1)])
    ultimately show ?thesis by simp
  next
    case (Some c)
    then have c: "c \<in> set (categories d)" and s: "slug c = s"
      by (auto simp: find_Some_iff)
    have only: "c' = c" if "c' \<in> set (categories d)" and "slug c' = s" for c'
      using assms(1) c s that by (metis distinct_map inj_onD)
    show ?thesis
    proof (cases "category_is_published c")
      case True
      have "CategoryListView_get_queryset d now s \<noteq> Inl Http404"
        using Some True
        by (simp add: CategoryListView_get_queryset_def category_lookup [OF assms(1)])
      moreover have "\<not> (\<forall>c \<in> set (categories d). slug c \<noteq> s)"
        using c s by blast
      moreover have "\<not> (\<exists>c \<in> set (categories d). slug c = s \<and> \<not> category_is_published c)"
        using only True by blast
      ultimately show ?thesis by blast
    next
      case False
      have "CategoryListView_get_queryset d now s = Inl Http404"
        using Some False
        by (simp add: CategoryListView_get_queryset_def category_lookup [OF assms(1)])
      moreover have "\<exists>c \<in> set (categories d). slug c = s \<and> \<not> category_is_published c"
        using c s False by blast
      ultimately show ?thesis by blast
    qed
  qed
next
  fix c
  assume c: "c \<in> set (categories d)" and sp: "slug c = s \<and> category_is_published c"
  have lookup: "get_object_or_404 (categories d)
                  (\<lambda>c. slug c = s \<and> category_is_published c) = Inr c"
    using filter_key_and [OF assms(1) c, of category_is_published] sp
    by (simp add: get_object_or_404_def)
  have deref: "\<exists>c'. category_of d p = Some c' \<and> category_is_published c'"
    if "category p = Some (category_pk c)" for p
    using find_key_unique [OF assms(2) c] that sp by (simp add: category_of_def)
  let ?rows = "order_by_pub_date_desc
                 (annotate_comment_count d
                    (filter (\<lambda>p. category p = Some (category_pk c)
                               \<and> is_published p \<and> pub_date p \<le> now)
                       (posts d)))"
  have result: "CategoryListView_get_queryset d now s = Inr ?rows"
    by (simp add: CategoryListView_get_queryset_def lookup)
  have members: "\<forall>p n. (p, n) \<in> set ?rows \<longleftrightarrow>
                     p \<in> set (posts d) \<and> category p = Some (category_pk c)
                     \<and> is_published p
                     \<and> (\<exists>c'. category_of d p = Some c' \<and> category_is_published c')
                     \<and> pub_date p \<le> now
                     \<and> n = length (filter (\<lambda>x. comment_post x = post_pk p) (comments d))"
    unfolding category_rows_membership using deref by blast
  have ordered: "sorted_wrt (\<lambda>a b. pub_date (fst b) \<le> pub_date (fst a)) ?rows"
    by (rule order_by_pub_date_desc_descending)
  show "\<exists>rows. CategoryListView_get_queryset d now s = Inr rows
               \<and> (\<forall>p n. (p, n) \<in> set rows \<longleftrightarrow>
                     p \<in> set (posts d) \<and> category p = Some (category_pk c)
                     \<and> is_published p
                     \<and> (\<exists>c'. category_of d p = Some c' \<and> category_is_published c')
                     \<and> pub_date p \<le> now
                     \<and> n = length (filter (\<lambda>x. comment_post x = post_pk p) (comments d)))
               \<and> sorted_wrt (\<lambda>a b. pub_date (fst b) \<le> pub_date (fst a)) rows"
    using result members ordered by (intro exI [of _ ?rows] conjI)
qed


theorem category_listing_example:
  "CategoryListView_get_queryset example_db example_now ''drafts'' = Inl Http404
   \<and> CategoryListView_get_queryset example_db example_now ''sport'' = Inl Http404
   \<and> (\<exists>rows. CategoryListView_get_queryset example_db example_now ''news'' = Inr rows
         \<and> (post_A, 2) \<in> set rows
         \<and> (post_unpublished, 0) \<notin> set rows
         \<and> (post_future, 0) \<notin> set rows
         \<and> (post_hidden_category, 0) \<notin> set rows)"
proof -
  have slugs: "distinct (map slug (categories example_db))"
    and keys: "distinct (map category_pk (categories example_db))"
    by (simp_all add: example_defs)
  note listing = category_listing_not_found_or_visible_posts [OF slugs keys, of example_now]
  have drafts: "CategoryListView_get_queryset example_db example_now ''drafts'' = Inl Http404"
    using listing [of "''drafts''"] by (simp add: example_defs)
  have sport: "CategoryListView_get_queryset example_db example_now ''sport'' = Inl Http404"
    using listing [of "''sport''"] by (simp add: example_defs)
  have "news \<in> set (categories example_db)"
    and "slug news = ''news'' \<and> category_is_published news"
    by (simp_all add: example_defs)
  with listing [of "''news''"] obtain rows
    where rows: "CategoryListView_get_queryset example_db example_now ''news'' = Inr rows"
      and members: "\<And>p n. (p, n) \<in> set rows \<longleftrightarrow>
                     p \<in> set (posts example_db) \<and> category p = Some (category_pk news)
                     \<and> is_published p
                     \<and> (\<exists>c'. category_of example_db p = Some c' \<and> category_is_published c')
                     \<and> pub_date p \<le> example_now
                     \<and> n = length (filter (\<lambda>x. comment_post x = post_pk p)
                                      (comments example_db))"
    by blast
  have "(post_A, 2) \<in> set rows"
    unfolding members by (simp add: example_defs category_of_def)
  moreover have "(post_unpublished, 0) \<notin> set rows"
    unfolding members by (simp add: example_defs category_of_def)
  moreover have "(post_future, 0) \<notin> set rows"
    unfolding members by (simp add: example_defs category_of_def)
  moreover have "(post_hidden_category, 0) \<notin> set rows"
    unfolding members by (simp add: example_defs category_of_def)
  ultimately show ?thesis
    using drafts sport rows by blast
qed

section \<open>Lemmas on pagination\<close>

lemma num_pages_ge_1: "0 < per_page \<Longrightarrow> 1 \<le> num_pages objs per_page"
proof -
  assume pos: "0 < per_page"
  have "per_page \<le> max 1 (length objs) + per_page - 1" by simp
  then have "per_page div per_page \<le> (max 1 (length objs) + per_page - 1) div per_page"
    by (rule div_le_mono)
  with pos show ?thesis by (simp add: num_pages_def)
qed

lemma num_pages_10: "num_pages objs 10 = int ((max 1 (length objs) + 9) div 10)"
  by (simp add: num_pages_def)

lemma Paginator_page_in_range:
  assumes "1 \<le> n" and "n \<le> num_pages objs per_page"
  shows "Paginator_page int_of_str objs per_page (PyInt n) =
           Inr \<lparr>object_list = take per_page (drop ((nat n - 1) * per_page) objs),
                number = n, paginator_num_pages = num_pages objs per_page\<rparr>"
proof -
  let ?bottom = "(nat n - 1) * per_page"
  have "take ((if length objs \<le> ?bottom + per_page then length objs
               else ?bottom + per_page) - ?bottom) (drop ?bottom objs)
        = take per_page (drop ?bottom objs)"
    by (simp add: min_def)
  with assms show ?thesis
    by (simp add: Paginator_page_def validate_number_def Let_def)
qed

lemma Paginator_page_out_of_range:
  assumes "n < 1 \<or> num_pages objs per_page < n"
  shows "Paginator_page int_of_str objs per_page (PyInt n) = Inl EmptyPage"
  using assms by (auto simp: Paginator_page_def validate_number_def)

lemma get_page_result:
  assumes "0 < per_page"
    and "k = (case (case arg of PyNone \<Rightarrow> None | PyStr s \<Rightarrow> int_of_str s | PyInt n \<Rightarrow> Some n) of
                None \<Rightarrow> 1
              | Some n \<Rightarrow> if 1 \<le> n \<and> n \<le> num_pages objs per_page then n
                          else num_pages objs per_page)"
  shows "get_page int_of_str objs per_page arg =
           Inr \<lparr>object_list = take per_page (drop ((nat k - 1) * per_page) objs),
                number = k, paginator_num_pages = num_pages objs per_page\<rparr>"
proof -
  have k: "(case validate_number int_of_str objs per_page arg of
              Inl PageNotAnInteger \<Rightarrow> 1
            | Inl EmptyPage \<Rightarrow> num_pages objs per_page
            | Inr n \<Rightarrow> n) = k"
    unfolding assms(2)
    by (auto simp: validate_number_def split: option.splits page_arg.splits)
  have "1 \<le> k" and "k \<le> num_pages objs per_page"
    using num_pages_ge_1 [OF assms(1), of objs] unfolding assms(2)
    by (auto split: option.splits page_arg.splits)
  then show ?thesis
    unfolding get_page_def k by (rule Paginator_page_in_range)
qed

lemma paginate_queryset_result:
  assumes "0 < page_size"
  shows "paginate_queryset int_of_str qs page_size page =
           (case (case page of
                    None \<Rightarrow> Some 1
                  | Some s \<Rightarrow>
                      if s = [] then Some 1
                      else (case int_of_str s of
                              Some n \<Rightarrow> Some n
                            | None \<Rightarrow>
                                if s = ''last'' then Some (num_pages qs page_size)
                                else None)) of
              None \<Rightarrow> Inl Http404
            | Some n \<Rightarrow>
                if 1 \<le> n \<and> n \<le> num_pages qs page_size
                then Inr \<lparr>object_list = take page_size (drop ((nat n - 1) * page_size) qs),
                          number = n, paginator_num_pages = num_pages qs page_size\<rparr>
                else Inl Http404)"
proof -
  have page_of: "(case Paginator_page int_of_str qs page_size (PyInt n) of
                    Inl e \<Rightarrow> Inl Http404 | Inr pg \<Rightarrow> Inr pg)
                 = (if 1 \<le> n \<and> n \<le> num_pages qs page_size
                    then Inr \<lparr>object_list = take page_size (drop ((nat n - 1) * page_size) qs),
                              number = n, paginator_num_pages = num_pages qs page_size\<rparr>
                    else Inl Http404)" for n
  proof (cases "1 \<le> n \<and> n \<le> num_pages qs page_size")
    case True
    then show ?thesis by (simp add: Paginator_page_in_range)
  next
    case False
    then have "n < 1 \<or> num_pages qs page_size < n" by auto
    then show ?thesis using False by (simp add: Paginator_page_out_of_range)
  qed
  show ?thesis
    unfolding paginate_queryset_def
    by (simp add: page_of split: option.splits)
qed

lemma paginate_queryset_Http404_iff:
  assumes "0 < page_size"
  shows "paginate_queryset int_of_str qs page_size page = Inl Http404 \<longleftrightarrow>
           (\<exists>s. page = Some s \<and> s \<noteq> []
              \<and> (case int_of_str s of
                    None \<Rightarrow> s \<noteq> ''last''
                  | Some n \<Rightarrow> n < 1 \<or> num_pages qs page_size < n))"
  using num_pages_ge_1 [OF assms, of qs]
  by (auto simp: paginate_queryset_result [OF assms] split: option.splits)

lemma paginate_queryset_Inr:
  assumes "0 < page_size" and "paginate_queryset int_of_str qs page_size page = Inr pg"
  shows "1 \<le> number pg \<and> number pg \<le> num_pages qs page_size
         \<and> object_list pg = take page_size (drop ((nat (number pg) - 1) * page_size) qs)
         \<and> paginator_num_pages pg = num_pages qs page_size"
  using assms(2) unfolding paginate_queryset_result [OF assms(1)]
  by (auto split: option.splits if_splits)

lemma has_next_iff:
  assumes "1 \<le> number pg" and "paginator_num_pages pg = num_pages qs 10"
  shows "has_next pg \<longleftrightarrow> nat (number pg) * 10 < length qs"
  using assms by (auto simp: has_next_def num_pages_def) 


lemma ascii_int_examples:
  "ascii_int ''1'' = Some 1" "ascii_int ''2'' = Some 2" "ascii_int ''3'' = Some 3"
  "ascii_int ''7'' = Some 7" "ascii_int ''0'' = Some 0" "ascii_int ''-4'' = Some (- 4)"
  "ascii_int ''abc'' = None" "ascii_int ''last'' = None"
  by (simp_all add: ascii_int_def ascii_digits_def is_digit_def digit_val_def)

lemma profile_posts_alice:
  "profile_posts example_db alice
     = [(post_future, 0), (post_unpublished, 0), (post_A, 2)]"
  by (simp add: profile_posts_def order_by_pub_date_desc_def annotate_comment_count_def
      Count_comments_def example_defs)

section \<open>The profile listing\<close>

text \<open>
  Claim C4. User names being unique, the profile view of a name that no user has fails
  with \<open>Http404\<close>. For the user of that name it renders a page, whatever the page
  parameter: the page's number is 1 when the parameter is missing or is not read as an
  integer, the integer when it is in the range from 1 to the number of pages, and the
  last page otherwise; the rows of the page are the ten rows of the user's listing that
  this number selects. The listing holds every post of the table whose author is the
  user, whatever its \<open>is_published\<close>, its category and its \<open>pub_date\<close>, each with the
  number of its comments, with \<open>pub_date\<close> descending.
\<close>

theorem profile_listing_all_posts_of_user:
  assumes "distinct (map username (users d))"
  shows "((\<forall>u \<in> set (users d). username u \<noteq> name) \<longrightarrow>
            ProfileDetailView_get int_of_str d name page = Raised Http404)
       \<and> (\<forall>u \<in> set (users d). username u = name \<longrightarrow>
            (\<exists>pg. ProfileDetailView_get int_of_str d name page = Rendered (u, pg)
               \<and> number pg =
                   (case (case page of None \<Rightarrow> None | Some s \<Rightarrow> int_of_str s) of
                      None \<Rightarrow> 1
                    | Some n \<Rightarrow>
                        if 1 \<le> n
                           \<and> n \<le> int ((max 1 (length (profile_posts d u)) + 9) div 10)
                        then n
                        else int ((max 1 (length (profile_posts d u)) + 9) div 10))
               \<and> object_list pg =
                   take 10 (drop ((nat (number pg) - 1) * 10) (profile_posts d u)))
            \<and> (\<forall>p n. (p, n) \<in> set (profile_posts d u) \<longleftrightarrow>
                  p \<in> set (posts d) \<and> author p = user_pk u
                  \<and> n = length (filter (\<lambda>c. comment_post c = post_pk p) (comments d)))
            \<and> sorted_wrt (\<lambda>a b. pub_date (fst b) \<le> pub_date (fst a)) (profile_posts d u))"
proof (intro conjI ballI impI)
  assume "\<forall>u \<in> set (users d). username u \<noteq> name"
  then have "filter (\<lambda>u. username u = name) (users d) = []"
    by (simp add: filter_empty_conv)
  then show "ProfileDetailView_get int_of_str d name page = Raised Http404"
    by (simp add: ProfileDetailView_get_def ProfileDetailView_get_object_def)
next
  fix u
  assume u: "u \<in> set (users d)" and name: "username u = name"
  have object: "ProfileDetailView_get_object d name = Inr u"
    using filter_key_unique [OF assms u] name
    by (simp add: ProfileDetailView_get_object_def)
  let ?rows = "profile_posts d u"
  let ?last = "int ((max 1 (length ?rows) + 9) div 10)"
  let ?k = "case (case page of None \<Rightarrow> None | Some s \<Rightarrow> int_of_str s) of
              None \<Rightarrow> 1
            | Some n \<Rightarrow> if 1 \<le> n \<and> n \<le> ?last then n else ?last"
  let ?pg = "\<lparr>object_list = take 10 (drop ((nat ?k - 1) * 10) ?rows),
              number = ?k, paginator_num_pages = num_pages ?rows 10\<rparr>"
  have "get_page int_of_str ?rows 10 (case page of None \<Rightarrow> PyNone | Some s \<Rightarrow> PyStr s)
          = Inr ?pg"
  proof (rule get_page_result)
    show "0 < (10::nat)" by simp
    show "?k = (case (case (case page of None \<Rightarrow> PyNone | Some s \<Rightarrow> PyStr s) of
                        PyNone \<Rightarrow> None | PyStr s \<Rightarrow> int_of_str s | PyInt n \<Rightarrow> Some n) of
                  None \<Rightarrow> 1
                | Some n \<Rightarrow> if 1 \<le> n \<and> n \<le> num_pages ?rows 10 then n
                            else num_pages ?rows 10)"
      unfolding num_pages_10 by (cases page) simp_all
  qed
  then have "ProfileDetailView_get int_of_str d name page = Rendered (u, ?pg)"
    by (simp add: ProfileDetailView_get_def object ProfileDetailView_get_context_data_def)
  then show "\<exists>pg. ProfileDetailView_get int_of_str d name page = Rendered (u, pg)
               \<and> number pg = ?k
               \<and> object_list pg = take 10 (drop ((nat (number pg) - 1) * 10) ?rows)"
    by (intro exI [of _ ?pg]) simp
  show "\<forall>p n. (p, n) \<in> set (profile_posts d u) \<longleftrightarrow>
                  p \<in> set (posts d) \<and> author p = user_pk u
                  \<and> n = length (filter (\<lambda>c. comment_post c = post_pk p) (comments d))"
    unfolding profile_posts_def set_order_by_pub_date_desc annotate_comment_count_def
      Count_comments_def
    by auto
  show "sorted_wrt (\<lambda>a b. pub_date (fst b) \<le> pub_date (fst a)) (profile_posts d u)"
    unfolding profile_posts_def by (rule order_by_pub_date_desc_descending)
qed

theorem profile_listing_example:
  "ProfileDetailView_get ascii_int example_db ''carol'' None = Raised Http404
   \<and> (\<exists>pg. ProfileDetailView_get ascii_int example_db ''alice'' None = Rendered (alice, pg)
         \<and> number pg = 1
         \<and> object_list pg = [(post_future, 0), (post_unpublished, 0), (post_A, 2)])
   \<and> (post_by_bob, 0) \<notin> set (profile_posts example_db alice)"
proof -
  have names: "distinct (map username (users example_db))"
    by (simp add: example_defs)
  note listing = profile_listing_all_posts_of_user [OF names, of _ ascii_int None]
  have carol: "ProfileDetailView_get ascii_int example_db ''carol'' None = Raised Http404"
    using listing [of "''carol''"] by (simp add: example_defs)
  have "alice \<in> set (users example_db)" and "username alice = ''alice''"
    by (simp_all add: example_defs)
  with listing [of "''alice''"] obtain pg
    where view: "ProfileDetailView_get ascii_int example_db ''alice'' None
                   = Rendered (alice, pg)"
      and num: "number pg = 1"
      and rows: "object_list pg
                   = take 10 (drop ((nat (number pg) - 1) * 10)
                                (profile_posts example_db alice))"
      and members: "\<And>p n. (p, n) \<in> set (profile_posts example_db alice) \<longleftrightarrow>
                  p \<in> set (posts example_db) \<and> author p = user_pk alice
                  \<and> n = length (filter (\<lambda>c. comment_post c = post_pk p)
                                   (comments example_db))"
    by auto
  have "object_list pg = [(post_future, 0), (post_unpublished, 0), (post_A, 2)]"
    unfolding rows num by (simp add: profile_posts_alice)
  moreover have "(post_by_bob, 0) \<notin> set (profile_posts example_db alice)"
    unfolding members by (simp add: example_defs)
  ultimately show ?thesis
    using carol view num by (intro conjI exI [of _ pg]; simp)
qed


lemma get_page_Inr:
  assumes "0 < per_page" and "get_page int_of_str objs per_page arg = Inr pg"
  shows "1 \<le> number pg \<and> number pg \<le> num_pages objs per_page
         \<and> object_list pg = take per_page (drop ((nat (number pg) - 1) * per_page) objs)
         \<and> paginator_num_pages pg = num_pages objs per_page"
proof -
  define k where
    "k = (case (case arg of PyNone \<Rightarrow> None | PyStr s \<Rightarrow> int_of_str s | PyInt n \<Rightarrow> Some n) of
            None \<Rightarrow> 1
          | Some n \<Rightarrow> if 1 \<le> n \<and> n \<le> num_pages objs per_page then n
                      else num_pages objs per_page)"
  have bounds: "1 \<le> k \<and> k \<le> num_pages objs per_page"
    using num_pages_ge_1 [OF assms(1), of objs] unfolding k_def
    by (auto split: option.splits page_arg.splits)
  have "pg = \<lparr>object_list = take per_page (drop ((nat k - 1) * per_page) objs),
              number = k, paginator_num_pages = num_pages objs per_page\<rparr>"
    using get_page_result [OF assms(1) k_def] assms(2) by simp
  with bounds show ?thesis by simp
qed

lemma page_of_10:
  assumes "1 \<le> number pg \<and> number pg \<le> num_pages qs 10
           \<and> object_list pg = take 10 (drop ((nat (number pg) - 1) * 10) qs)
           \<and> paginator_num_pages pg = num_pages qs 10"
  shows "1 \<le> number pg
         \<and> object_list pg = take 10 (drop ((nat (number pg) - 1) * 10) qs)
         \<and> length (object_list pg) \<le> 10
         \<and> (has_next pg \<longleftrightarrow> nat (number pg) * 10 < length qs)"
proof -
  have "has_next pg \<longleftrightarrow> nat (number pg) * 10 < length qs"
    using assms by (intro has_next_iff) simp_all
  moreover have "length (object_list pg) \<le> 10"
    using assms by simp
  ultimately show ?thesis using assms by blast
qed

lemma first_and_third_of_25:
  assumes "length qs = 25"
  shows "num_pages qs 10 = 3" and "length (take 10 qs) = 10" and "length (drop 20 qs) = 5"
  using assms by (simp_all add: num_pages_def)

section \<open>Pages of ten\<close>

text \<open>
  Claim C7. The listings are cut into pages of 10. Every page that the index, a category
  listing or the profile listing returns has a number \<open>n\<close> of at least 1, its rows are
  the at most 10 rows of the listing that follow the first \<open>10 (n - 1)\<close>, and it has a
  next page exactly when the listing has more than \<open>10 n\<close> rows. When 25 posts pass the
  filter of the index, page 1 of the index is the first 10 rows and has a next page, and
  page 3 is the last 5 rows and has none; the same holds of the profile listing of a
  user with 25 posts. (The page parameters are the texts \<^verbatim>\<open>1\<close> and \<^verbatim>\<open>3\<close>, read as the
  integers 1 and 3.)
\<close>

theorem listings_paged_by_10:
  "(\<forall>pg. PostListView_get int_of_str d now page = Inr pg \<longrightarrow>
        1 \<le> number pg
      \<and> object_list pg
          = take 10 (drop ((nat (number pg) - 1) * 10) (PostListView_get_queryset d now))
      \<and> length (object_list pg) \<le> 10
      \<and> (has_next pg \<longleftrightarrow> nat (number pg) * 10 < length (PostListView_get_queryset d now)))
   \<and> (\<forall>qs pg. CategoryListView_get_queryset d now category_slug = Inr qs
          \<and> CategoryListView_get int_of_str d now category_slug page = Inr pg \<longrightarrow>
        1 \<le> number pg
      \<and> object_list pg = take 10 (drop ((nat (number pg) - 1) * 10) qs)
      \<and> length (object_list pg) \<le> 10
      \<and> (has_next pg \<longleftrightarrow> nat (number pg) * 10 < length qs))
   \<and> (\<forall>pg. ProfileDetailView_get_context_data int_of_str d u page = Inr pg \<longrightarrow>
        1 \<le> number pg
      \<and> object_list pg = take 10 (drop ((nat (number pg) - 1) * 10) (profile_posts d u))
      \<and> length (object_list pg) \<le> 10
      \<and> (has_next pg \<longleftrightarrow> nat (number pg) * 10 < length (profile_posts d u)))
   \<and> (length (PostListView_get_queryset d now) = 25
        \<and> int_of_str ''1'' = Some 1 \<and> int_of_str ''3'' = Some 3 \<longrightarrow>
        (\<exists>pg. PostListView_get int_of_str d now (Some ''1'') = Inr pg
           \<and> object_list pg = take 10 (PostListView_get_queryset d now)
           \<and> length (object_list pg) = 10 \<and> has_next pg)
      \<and> (\<exists>pg. PostListView_get int_of_str d now (Some ''3'') = Inr pg
           \<and> object_list pg = drop 20 (PostListView_get_queryset d now)
           \<and> length (object_list pg) = 5 \<and> \<not> has_next pg))
   \<and> (length (profile_posts d u) = 25
        \<and> int_of_str ''1'' = Some 1 \<and> int_of_str ''3'' = Some 3 \<longrightarrow>
        (\<exists>pg. ProfileDetailView_get_context_data int_of_str d u (Some ''1'') = Inr pg
           \<and> object_list pg = take 10 (profile_posts d u)
           \<and> length (object_list pg) = 10 \<and> has_next pg)
      \<and> (\<exists>pg. ProfileDetailView_get_context_data int_of_str d u (Some ''3'') = Inr pg
           \<and> object_list pg = drop 20 (profile_posts d u)
           \<and> length (object_list pg) = 5 \<and> \<not> has_next pg))"
proof -
  have index: "\<forall>pg. PostListView_get int_of_str d now page = Inr pg \<longrightarrow>
        1 \<le> number pg
      \<and> object_list pg
          = take 10 (drop ((nat (number pg) - 1) * 10) (PostListView_get_queryset d now))
      \<and> length (object_list pg) \<le> 10
      \<and> (has_next pg \<longleftrightarrow> nat (number pg) * 10 < length (PostListView_get_queryset d now))"
  proof (intro allI impI)
    fix pg
    assume "PostListView_get int_of_str d now page = Inr pg"
    then have "paginate_queryset int_of_str (PostListView_get_queryset d now) 10 page = Inr pg"
      by (simp add: PostListView_get_def paginate_by_def)
    then show "1 \<le> number pg
      \<and> object_list pg
          = take 10 (drop ((nat (number pg) - 1) * 10) (PostListView_get_queryset d now))
      \<and> length (object_list pg) \<le> 10
      \<and> (has_next pg \<longleftrightarrow> nat (number pg) * 10 < length (PostListView_get_queryset d now))"
      by (intro page_of_10 paginate_queryset_Inr) simp_all
  qed
  have category: "\<forall>qs pg. CategoryListView_get_queryset d now category_slug = Inr qs
          \<and> CategoryListView_get int_of_str d now category_slug page = Inr pg \<longrightarrow>
        1 \<le> number pg
      \<and> object_list pg = take 10 (drop ((nat (number pg) - 1) * 10) qs)
      \<and> length (object_list pg) \<le> 10
      \<and> (has_next pg \<longleftrightarrow> nat (number pg) * 10 < length qs)"
  proof (intro allI impI)
    fix qs pg
    assume a: "CategoryListView_get_queryset d now category_slug = Inr qs
          \<and> CategoryListView_get int_of_str d now category_slug page = Inr pg"
    then have qs: "CategoryListView_get_queryset d now category_slug = Inr qs"
      by simp
    from a have "paginate_queryset int_of_str qs 10 page = Inr pg"
      unfolding CategoryListView_get_def qs by (simp add: paginate_by_def)
    then show "1 \<le> number pg
      \<and> object_list pg = take 10 (drop ((nat (number pg) - 1) * 10) qs)
      \<and> length (object_list pg) \<le> 10
      \<and> (has_next pg \<longleftrightarrow> nat (number pg) * 10 < length qs)"
      by (intro page_of_10 paginate_queryset_Inr) simp_all
  qed
  have profile: "\<forall>pg. ProfileDetailView_get_context_data int_of_str d u page = Inr pg \<longrightarrow>
        1 \<le> number pg
      \<and> object_list pg = take 10 (drop ((nat (number pg) - 1) * 10) (profile_posts d u))
      \<and> length (object_list pg) \<le> 10
      \<and> (has_next pg \<longleftrightarrow> nat (number pg) * 10 < length (profile_posts d u))"
  proof (intro allI impI)
    fix pg
    assume "ProfileDetailView_get_context_data int_of_str d u page = Inr pg"
    then have "get_page int_of_str (profile_posts d u) 10
               (case page of None \<Rightarrow> PyNone | Some s \<Rightarrow> PyStr s) = Inr pg"
      by (simp add: ProfileDetailView_get_context_data_def)
    then show "1 \<le> number pg
      \<and> object_list pg = take 10 (drop ((nat (number pg) - 1) * 10) (profile_posts d u))
      \<and> length (object_list pg) \<le> 10
      \<and> (has_next pg \<longleftrightarrow> nat (number pg) * 10 < length (profile_posts d u))"
      by (intro page_of_10 get_page_Inr) simp_all
  qed
  have index_25: "length (PostListView_get_queryset d now) = 25
        \<and> int_of_str ''1'' = Some 1 \<and> int_of_str ''3'' = Some 3 \<longrightarrow>
        (\<exists>pg. PostListView_get int_of_str d now (Some ''1'') = Inr pg
           \<and> object_list pg = take 10 (PostListView_get_queryset d now)
           \<and> length (object_list pg) = 10 \<and> has_next pg)
      \<and> (\<exists>pg. PostListView_get int_of_str d now (Some ''3'') = Inr pg
           \<and> object_list pg = drop 20 (PostListView_get_queryset d now)
           \<and> length (object_list pg) = 5 \<and> \<not> has_next pg)"
  proof
    let ?qs = "PostListView_get_queryset d now"
    assume a: "length ?qs = 25 \<and> int_of_str ''1'' = Some 1 \<and> int_of_str ''3'' = Some 3"
    then have len: "length ?qs = 25" by simp
    note facts = first_and_third_of_25 [OF len]
    have first: "PostListView_get int_of_str d now (Some ''1'') =
                 Inr \<lparr>object_list = take 10 ?qs, number = 1, paginator_num_pages = 3\<rparr>"
      using a facts(1)
      by (simp add: PostListView_get_def paginate_by_def paginate_queryset_result)
    have third: "PostListView_get int_of_str d now (Some ''3'') =
                 Inr \<lparr>object_list = drop 20 ?qs, number = 3, paginator_num_pages = 3\<rparr>"
      using a facts(1) len
      by (simp add: PostListView_get_def paginate_by_def paginate_queryset_result)
    show "(\<exists>pg. PostListView_get int_of_str d now (Some ''1'') = Inr pg
           \<and> object_list pg = take 10 ?qs
           \<and> length (object_list pg) = 10 \<and> has_next pg)
      \<and> (\<exists>pg. PostListView_get int_of_str d now (Some ''3'') = Inr pg
           \<and> object_list pg = drop 20 ?qs
           \<and> length (object_list pg) = 5 \<and> \<not> has_next pg)"
      using facts(2,3) by (simp add: first third has_next_def)
  qed
  have profile_25: "length (profile_posts d u) = 25
        \<and> int_of_str ''1'' = Some 1 \<and> int_of_str ''3'' = Some 3 \<longrightarrow>
        (\<exists>pg. ProfileDetailView_get_context_data int_of_str d u (Some ''1'') = Inr pg
           \<and> object_list pg = take 10 (profile_posts d u)
           \<and> length (object_list pg) = 10 \<and> has_next pg)
      \<and> (\<exists>pg. ProfileDetailView_get_context_data int_of_str d u (Some ''3'') = Inr pg
           \<and> object_list pg = drop 20 (profile_posts d u)
           \<and> length (object_list pg) = 5 \<and> \<not> has_next pg)"
  proof
    let ?qs = "profile_posts d u"
    assume a: "length ?qs = 25 \<and> int_of_str ''1'' = Some 1 \<and> int_of_str ''3'' = Some 3"
    then have len: "length ?qs = 25" by simp
    note facts = first_and_third_of_25 [OF len]
    have first: "ProfileDetailView_get_context_data int_of_str d u (Some ''1'') =
                 Inr \<lparr>object_list = take 10 ?qs, number = 1, paginator_num_pages = 3\<rparr>"
      using a facts(1) get_page_result [where per_page = 10 and k = 1 and arg = "PyStr ''1''"
          and int_of_str = int_of_str and objs = ?qs]
      by (simp add: ProfileDetailView_get_context_data_def)
    have third: "ProfileDetailView_get_context_data int_of_str d u (Some ''3'') =
                 Inr \<lparr>object_list = drop 20 ?qs, number = 3, paginator_num_pages = 3\<rparr>"
      using a facts(1) len get_page_result [where per_page = 10 and k = 3 and arg = "PyStr ''3''"
          and int_of_str = int_of_str and objs = ?qs]
      by (simp add: ProfileDetailView_get_context_data_def)
    show "(\<exists>pg. ProfileDetailView_get_context_data int_of_str d u (Some ''1'') = Inr pg
           \<and> object_list pg = take 10 ?qs
           \<and> length (object_list pg) = 10 \<and> has_next pg)
      \<and> (\<exists>pg. ProfileDetailView_get_context_data int_of_str d u (Some ''3'') = Inr pg
           \<and> object_list pg = drop 20 ?qs
           \<and> length (object_list pg) = 5 \<and> \<not> has_next pg)"
      using facts(2,3) by (simp add: first third has_next_def)
  qed
  show ?thesis
    by (intro conjI index category profile index_25 profile_25)
qed


lemma archive_listing:
  "PostListView_get_queryset archive_db example_now
     = order_by_pub_date_desc (annotate_comment_count archive_db (posts archive_db))"
proof -
  have "\<forall>r \<in> set (annotate_comment_count archive_db (posts archive_db)).
          is_published (fst r)
          \<and> (case category_of archive_db (fst r) of
                None \<Rightarrow> False | Some c \<Rightarrow> category_is_published c)
          \<and> pub_date (fst r) \<le> example_now"
    by (auto simp: annotate_comment_count_def archive_db_def numbered_post_def post_A_def
        category_of_def news_def example_now_def)
  then show ?thesis
    by (simp add: PostListView_get_queryset_def)
qed

lemma length_archive_listing:
  "length (PostListView_get_queryset archive_db example_now) = 25"
  unfolding archive_listing
  by (simp add: order_by_pub_date_desc_def annotate_comment_count_def archive_db_def)

lemma length_archive_profile: "length (profile_posts archive_db alice) = 25"
proof -
  have "filter (\<lambda>p. author p = user_pk alice) (posts archive_db) = posts archive_db"
    by (auto simp: archive_db_def numbered_post_def post_A_def alice_def)
  then show ?thesis
    by (simp add: profile_posts_def order_by_pub_date_desc_def annotate_comment_count_def
        archive_db_def)
qed

theorem listings_paged_example:
  "(\<exists>pg. PostListView_get ascii_int archive_db example_now (Some ''1'') = Inr pg
      \<and> length (object_list pg) = 10 \<and> has_next pg)
   \<and> (\<exists>pg. PostListView_get ascii_int archive_db example_now (Some ''3'') = Inr pg
      \<and> length (object_list pg) = 5 \<and> \<not> has_next pg)
   \<and> (\<exists>pg. ProfileDetailView_get_context_data ascii_int archive_db alice (Some ''1'') = Inr pg
      \<and> length (object_list pg) = 10 \<and> has_next pg)
   \<and> (\<exists>pg. ProfileDetailView_get_context_data ascii_int archive_db alice (Some ''3'') = Inr pg
      \<and> length (object_list pg) = 5 \<and> \<not> has_next pg)"
proof -
  note paged = listings_paged_by_10
      [of ascii_int archive_db example_now None "''news''" alice]
  have index: "(\<exists>pg. PostListView_get ascii_int archive_db example_now (Some ''1'') = Inr pg
      \<and> length (object_list pg) = 10 \<and> has_next pg)
   \<and> (\<exists>pg. PostListView_get ascii_int archive_db example_now (Some ''3'') = Inr pg
      \<and> length (object_list pg) = 5 \<and> \<not> has_next pg)"
    using paged [THEN conjunct2, THEN conjunct2, THEN conjunct2, THEN conjunct1]
      length_archive_listing ascii_int_examples(1,3)
    by blast
  have profile: "(\<exists>pg. ProfileDetailView_get_context_data ascii_int archive_db alice
                      (Some ''1'') = Inr pg
      \<and> length (object_list pg) = 10 \<and> has_next pg)
   \<and> (\<exists>pg. ProfileDetailView_get_context_data ascii_int archive_db alice
                      (Some ''3'') = Inr pg
      \<and> length (object_list pg) = 5 \<and> \<not> has_next pg)"
    using paged [THEN conjunct2, THEN conjunct2, THEN conjunct2, THEN conjunct2]
      length_archive_profile ascii_int_examples(1,3)
    by blast
  from index profile show ?thesis by blast
qed

section \<open>Page numbers out of range\<close>

text \<open>
  Claim C10. The index and the category listing, which page through \<^verbatim>\<open>paginate_by\<close>,
  fail with \<open>Http404\<close> exactly for a page parameter that is invalid (not empty, not read
  by \<^verbatim>\<open>int()\<close> and not the word \<^verbatim>\<open>last\<close>) or that is an integer out of range: below 1
  or above the number of pages, which is the number of rows (1 for no row) divided by
  10 and rounded up. The profile listing, which pages through \<^verbatim>\<open>get_page\<close>, always
  renders a page: page 1 when the parameter is missing or is not read as an integer, the
  last page when the integer is out of range, and the page asked for otherwise; the
  rows are those of that page.
\<close>

theorem page_number_policies:
  "(PostListView_get int_of_str d now page = Inl Http404 \<longleftrightarrow>
      (\<exists>s. page = Some s \<and> s \<noteq> []
         \<and> (case int_of_str s of
               None \<Rightarrow> s \<noteq> ''last''
             | Some n \<Rightarrow>
                 n < 1
                 \<or> int ((max 1 (length (PostListView_get_queryset d now)) + 9) div 10) < n)))
   \<and> (\<forall>qs. CategoryListView_get_queryset d now category_slug = Inr qs \<longrightarrow>
         (CategoryListView_get int_of_str d now category_slug page = Inl Http404 \<longleftrightarrow>
            (\<exists>s. page = Some s \<and> s \<noteq> []
               \<and> (case int_of_str s of
                     None \<Rightarrow> s \<noteq> ''last''
                   | Some n \<Rightarrow> n < 1 \<or> int ((max 1 (length qs) + 9) div 10) < n))))
   \<and> (\<exists>pg. ProfileDetailView_get_context_data int_of_str d u page = Inr pg
         \<and> number pg =
             (case (case page of None \<Rightarrow> None | Some s \<Rightarrow> int_of_str s) of
                None \<Rightarrow> 1
              | Some n \<Rightarrow>
                  if 1 \<le> n \<and> n \<le> int ((max 1 (length (profile_posts d u)) + 9) div 10)
                  then n
                  else int ((max 1 (length (profile_posts d u)) + 9) div 10))
         \<and> object_list pg
             = take 10 (drop ((nat (number pg) - 1) * 10) (profile_posts d u)))"
proof -
  have index: "PostListView_get int_of_str d now page = Inl Http404 \<longleftrightarrow>
      (\<exists>s. page = Some s \<and> s \<noteq> []
         \<and> (case int_of_str s of
               None \<Rightarrow> s \<noteq> ''last''
             | Some n \<Rightarrow>
                 n < 1
                 \<or> int ((max 1 (length (PostListView_get_queryset d now)) + 9) div 10) < n))"
    using paginate_queryset_Http404_iff
        [of 10 int_of_str "PostListView_get_queryset d now" page]
    unfolding num_pages_10 by (simp add: PostListView_get_def paginate_by_def)
  have category: "\<forall>qs. CategoryListView_get_queryset d now category_slug = Inr qs \<longrightarrow>
         (CategoryListView_get int_of_str d now category_slug page = Inl Http404 \<longleftrightarrow>
            (\<exists>s. page = Some s \<and> s \<noteq> []
               \<and> (case int_of_str s of
                     None \<Rightarrow> s \<noteq> ''last''
                   | Some n \<Rightarrow> n < 1 \<or> int ((max 1 (length qs) + 9) div 10) < n)))"
  proof (intro allI impI)
    fix qs
    assume qs: "CategoryListView_get_queryset d now category_slug = Inr qs"
    show "CategoryListView_get int_of_str d now category_slug page = Inl Http404 \<longleftrightarrow>
            (\<exists>s. page = Some s \<and> s \<noteq> []
               \<and> (case int_of_str s of
                     None \<Rightarrow> s \<noteq> ''last''
                   | Some n \<Rightarrow> n < 1 \<or> int ((max 1 (length qs) + 9) div 10) < n))"
      using paginate_queryset_Http404_iff [of 10 int_of_str qs page]
      unfolding num_pages_10 CategoryListView_get_def qs by (simp add: paginate_by_def)
  qed
  let ?rows = "profile_posts d u"
  let ?last = "int ((max 1 (length ?rows) + 9) div 10)"
  let ?k = "case (case page of None \<Rightarrow> None | Some s \<Rightarrow> int_of_str s) of
              None \<Rightarrow> 1
            | Some n \<Rightarrow> if 1 \<le> n \<and> n \<le> ?last then n else ?last"
  let ?pg = "\<lparr>object_list = take 10 (drop ((nat ?k - 1) * 10) ?rows),
              number = ?k, paginator_num_pages = num_pages ?rows 10\<rparr>"
  have "get_page int_of_str ?rows 10 (case page of None \<Rightarrow> PyNone | Some s \<Rightarrow> PyStr s)
          = Inr ?pg"
  proof (rule get_page_result)
    show "0 < (10::nat)" by simp
    show "?k = (case (case (case page of None \<Rightarrow> PyNone | Some s \<Rightarrow> PyStr s) of
                        PyNone \<Rightarrow> None | PyStr s \<Rightarrow> int_of_str s | PyInt n \<Rightarrow> Some n) of
                  None \<Rightarrow> 1
                | Some n \<Rightarrow> if 1 \<le> n \<and> n \<le> num_pages ?rows 10 then n
                            else num_pages ?rows 10)"
      unfolding num_pages_10 by (cases page) simp_all
  qed
  then have "ProfileDetailView_get_context_data int_of_str d u page = Inr ?pg"
    by (simp add: ProfileDetailView_get_context_data_def)
  then have profile: "\<exists>pg. ProfileDetailView_get_context_data int_of_str d u page = Inr pg
         \<and> number pg = ?k
         \<and> object_list pg = take 10 (drop ((nat (number pg) - 1) * 10) ?rows)"
    by (intro exI [of _ ?pg]) simp
  show ?thesis
    by (intro conjI index category profile)
qed

theorem page_number_policies_example:
  "PostListView_get ascii_int archive_db example_now (Some ''abc'') = Inl Http404
   \<and> PostListView_get ascii_int archive_db example_now (Some ''7'') = Inl Http404
   \<and> PostListView_get ascii_int archive_db example_now (Some ''0'') = Inl Http404
   \<and> PostListView_get ascii_int archive_db example_now (Some ''-4'') = Inl Http404
   \<and> PostListView_get ascii_int archive_db example_now (Some ''2'') \<noteq> Inl Http404
   \<and> PostListView_get ascii_int archive_db example_now (Some ''last'') \<noteq> Inl Http404
   \<and> PostListView_get ascii_int archive_db example_now None \<noteq> Inl Http404
   \<and> (\<exists>pg. ProfileDetailView_get_context_data ascii_int archive_db alice (Some ''abc'') = Inr pg
         \<and> number pg = 1)
   \<and> (\<exists>pg. ProfileDetailView_get_context_data ascii_int archive_db alice (Some ''7'') = Inr pg
         \<and> number pg = 3)
   \<and> (\<exists>pg. ProfileDetailView_get_context_data ascii_int archive_db alice (Some ''0'') = Inr pg
         \<and> number pg = 3)
   \<and> (\<exists>pg. ProfileDetailView_get_context_data ascii_int archive_db alice (Some ''2'') = Inr pg
         \<and> number pg = 2)"
proof -
  note policy = page_number_policies [of ascii_int archive_db example_now _ "''news''" alice]
  note index = policy [THEN conjunct1]
  note profile = policy [THEN conjunct2, THEN conjunct2]
  have "PostListView_get ascii_int archive_db example_now (Some ''abc'') = Inl Http404"
    and "PostListView_get ascii_int archive_db example_now (Some ''7'') = Inl Http404"
    and "PostListView_get ascii_int archive_db example_now (Some ''0'') = Inl Http404"
    and "PostListView_get ascii_int archive_db example_now (Some ''-4'') = Inl Http404"
    and "PostListView_get ascii_int archive_db example_now (Some ''2'') \<noteq> Inl Http404"
    and "PostListView_get ascii_int archive_db example_now (Some ''last'') \<noteq> Inl Http404"
    and "PostListView_get ascii_int archive_db example_now None \<noteq> Inl Http404"
    unfolding index length_archive_listing by (simp_all add: ascii_int_examples)
  moreover have
    "\<exists>pg. ProfileDetailView_get_context_data ascii_int archive_db alice (Some ''abc'') = Inr pg
         \<and> number pg = 1"
    using profile [of "Some ''abc''"] unfolding length_archive_profile
    by (auto simp: ascii_int_examples)
  moreover have
    "\<exists>pg. ProfileDetailView_get_context_data ascii_int archive_db alice (Some ''7'') = Inr pg
         \<and> number pg = 3"
    using profile [of "Some ''7''"] unfolding length_archive_profile
    by (auto simp: ascii_int_examples)
  moreover have
    "\<exists>pg. ProfileDetailView_get_context_data ascii_int archive_db alice (Some ''0'') = Inr pg
         \<and> number pg = 3"
    using profile [of "Some ''0''"] unfolding length_archive_profile
    by (auto simp: ascii_int_examples)
  moreover have
    "\<exists>pg. ProfileDetailView_get_context_data ascii_int archive_db alice (Some ''2'') = Inr pg
         \<and> number pg = 2"
    using profile [of "Some ''2''"] unfolding length_archive_profile
    by (auto simp: ascii_int_examples)
  ultimately show ?thesis by blast
qed

section \<open>The detail view\<close>

text \<open>
  Claim C9. Keys of posts being unique, the detail view returns every post of the table
  under its key, with its comments, to every request: the result does not depend on the
  user of the request, nor on the post's \<open>is_published\<close>, category or \<open>pub_date\<close>.
\<close>

theorem post_detail_ignores_visibility:
  assumes "distinct (map post_pk (posts d))" and "p \<in> set (posts d)"
  shows "PostDetailView d req (post_pk p) =
           Inr (p, filter (\<lambda>c. comment_post c = post_pk p) (comments d))"
  using filter_key_unique [OF assms]
  by (simp add: PostDetailView_def Post_get_object_def)

theorem post_detail_example:
  "PostDetailView example_db \<lparr>request_method = GET, request_user = None\<rparr> 6
     = Inr (post_unpublished, [])
   \<and> PostDetailView example_db \<lparr>request_method = GET, request_user = Some bob\<rparr> 8
     = Inr (post_future, [])
   \<and> PostDetailView example_db \<lparr>request_method = GET, request_user = None\<rparr> 7
     = Inr (post_hidden_category, [])"
proof -
  have keys: "distinct (map post_pk (posts example_db))"
    by (simp add: example_defs)
  show ?thesis
    using post_detail_ignores_visibility [OF keys, of post_unpublished
             "\<lparr>request_method = GET, request_user = None\<rparr>"]
      post_detail_ignores_visibility [OF keys, of post_future
             "\<lparr>request_method = GET, request_user = Some bob\<rparr>"]
      post_detail_ignores_visibility [OF keys, of post_hidden_category
             "\<lparr>request_method = GET, request_user = None\<rparr>"]
    by (simp add: example_defs)
qed

section \<open>Lemmas on the access mixins\<close>

lemma Post_get_object_unique:
  assumes "distinct (map post_pk (posts d))" and "p \<in> set (posts d)"
  shows "Post_get_object d (post_pk p) = Inr p"
  using filter_key_unique [OF assms] by (simp add: Post_get_object_def)

lemma Comment_get_object_unique:
  assumes "distinct (map comment_pk (comments d))" and "c \<in> set (comments d)"
  shows "Comment_get_object d (comment_pk c) = Inr c"
  using filter_key_unique [OF assms] by (simp add: Comment_get_object_def)

lemma anonymous_is_sent_to_login:
  "\<not> is_authenticated req \<Longrightarrow>
     LoginRequiredMixin_dispatch req d super_dispatch = (Inr (HttpResponseRedirect Login), d)"
  by (simp add: LoginRequiredMixin_dispatch_def handle_no_permission_def)

lemma other_user_is_denied:
  assumes "request_user req = Some u" and "get_object = Inr obj"
    and "author_of obj \<noteq> user_pk u"
  shows "LoginRequiredMixin_dispatch req d
           (UserPassesTestMixin_dispatch req d
              (AuthorRequiredMixin_test_func req author_of get_object) super_dispatch)
         = (Inl PermissionDenied, d)"
  using assms
  by (simp add: LoginRequiredMixin_dispatch_def UserPassesTestMixin_dispatch_def
      AuthorRequiredMixin_test_func_def handle_no_permission_def is_authenticated_def)

section \<open>The gate of the update and delete views\<close>

text \<open>
  Claim C2. For each of the four views that update or delete a post or a comment, with
  any method and any form data: a request without a logged-in user is answered with the
  redirect to the login page, and a request of a logged-in user who is not the author
  of the post or comment it names is refused with \<open>PermissionDenied\<close>. In both cases
  the database the view leaves is the one it found, so the post or comment is
  unchanged.
\<close>

theorem mutations_need_login_and_authorship:
  "(\<not> is_authenticated req \<longrightarrow>
       PostUpdateView parse_datetime fields_ok d req pk data
         = (Inr (HttpResponseRedirect Login), d)
     \<and> PostDeleteView d req pk = (Inr (HttpResponseRedirect Login), d)
     \<and> CommentUpdateView text_clean d req comment_id new_text
         = (Inr (HttpResponseRedirect Login), d)
     \<and> CommentDeleteView d req comment_id = (Inr (HttpResponseRedirect Login), d))
   \<and> (\<forall>u p. request_user req = Some u \<and> distinct (map post_pk (posts d))
          \<and> p \<in> set (posts d) \<and> post_pk p = pk \<and> author p \<noteq> user_pk u \<longrightarrow>
          PostUpdateView parse_datetime fields_ok d req pk data = (Inl PermissionDenied, d)
        \<and> PostDeleteView d req pk = (Inl PermissionDenied, d))
   \<and> (\<forall>u c. request_user req = Some u \<and> distinct (map comment_pk (comments d))
          \<and> c \<in> set (comments d) \<and> comment_pk c = comment_id
          \<and> comment_author c \<noteq> user_pk u \<longrightarrow>
          CommentUpdateView text_clean d req comment_id new_text = (Inl PermissionDenied, d)
        \<and> CommentDeleteView d req comment_id = (Inl PermissionDenied, d))"
proof (intro conjI allI impI)
  assume anonymous: "\<not> is_authenticated req"
  show "PostUpdateView parse_datetime fields_ok d req pk data
          = (Inr (HttpResponseRedirect Login), d)"
    unfolding PostUpdateView_def by (rule anonymous_is_sent_to_login [OF anonymous])
  show "PostDeleteView d req pk = (Inr (HttpResponseRedirect Login), d)"
    unfolding PostDeleteView_def by (rule anonymous_is_sent_to_login [OF anonymous])
  show "CommentUpdateView text_clean d req comment_id new_text
          = (Inr (HttpResponseRedirect Login), d)"
    unfolding CommentUpdateView_def by (rule anonymous_is_sent_to_login [OF anonymous])
  show "CommentDeleteView d req comment_id = (Inr (HttpResponseRedirect Login), d)"
    unfolding CommentDeleteView_def by (rule anonymous_is_sent_to_login [OF anonymous])
next
  fix u p
  assume a: "request_user req = Some u \<and> distinct (map post_pk (posts d))
          \<and> p \<in> set (posts d) \<and> post_pk p = pk \<and> author p \<noteq> user_pk u"
  then have object: "Post_get_object d pk = Inr p"
    using Post_get_object_unique [of d p] by auto
  from a have user: "request_user req = Some u" and other: "author p \<noteq> user_pk u"
    by simp_all
  show "PostUpdateView parse_datetime fields_ok d req pk data = (Inl PermissionDenied, d)"
    unfolding PostUpdateView_def
    by (rule other_user_is_denied [where author_of = author, OF user object other])
  show "PostDeleteView d req pk = (Inl PermissionDenied, d)"
    unfolding PostDeleteView_def
    by (rule other_user_is_denied [where author_of = author, OF user object other])
next
  fix u c
  assume a: "request_user req = Some u \<and> distinct (map comment_pk (comments d))
          \<and> c \<in> set (comments d) \<and> comment_pk c = comment_id
          \<and> comment_author c \<noteq> user_pk u"
  then have object: "Comment_get_object d comment_id = Inr c"
    using Comment_get_object_unique [of d c] by auto
  from a have user: "request_user req = Some u" and other: "comment_author c \<noteq> user_pk u"
    by simp_all
  show "CommentUpdateView text_clean d req comment_id new_text = (Inl PermissionDenied, d)"
    unfolding CommentUpdateView_def
    by (rule other_user_is_denied [where author_of = comment_author, OF user object other])
  show "CommentDeleteView d req comment_id = (Inl PermissionDenied, d)"
    unfolding CommentDeleteView_def
    by (rule other_user_is_denied [where author_of = comment_author, OF user object other])
qed


theorem mutations_gate_example:
  "PostUpdateView (\<lambda>s. No_match) (\<lambda>d f. True) example_db
       \<lparr>request_method = POST, request_user = None\<rparr> 5
       \<lparr>data_title = ''X'', data_text = ''x'', data_pub_date = ''02.02.2020'',
        data_category = Some 1, data_location = None, data_image = None\<rparr>
     = (Inr (HttpResponseRedirect Login), example_db)
   \<and> CommentDeleteView example_db \<lparr>request_method = POST, request_user = None\<rparr> 1
     = (Inr (HttpResponseRedirect Login), example_db)
   \<and> PostUpdateView (\<lambda>s. No_match) (\<lambda>d f. True) example_db
       \<lparr>request_method = POST, request_user = Some bob\<rparr> 5
       \<lparr>data_title = ''X'', data_text = ''x'', data_pub_date = ''02.02.2020'',
        data_category = Some 1, data_location = None, data_image = None\<rparr>
     = (Inl PermissionDenied, example_db)
   \<and> PostDeleteView example_db \<lparr>request_method = POST, request_user = Some bob\<rparr> 5
     = (Inl PermissionDenied, example_db)
   \<and> CommentUpdateView nonempty_text example_db
       \<lparr>request_method = POST, request_user = Some alice\<rparr> 1 ''edited''
     = (Inl PermissionDenied, example_db)
   \<and> CommentDeleteView example_db \<lparr>request_method = POST, request_user = Some alice\<rparr> 1
     = (Inl PermissionDenied, example_db)"
  using mutations_need_login_and_authorship
      [of "\<lparr>request_method = POST, request_user = None\<rparr>" "\<lambda>s. No_match" "\<lambda>d f. True"
          example_db 5
          "\<lparr>data_title = ''X'', data_text = ''x'', data_pub_date = ''02.02.2020'',
            data_category = Some 1, data_location = None, data_image = None\<rparr>"
          nonempty_text 1 "''edited''"]
    mutations_need_login_and_authorship
      [of "\<lparr>request_method = POST, request_user = Some bob\<rparr>" "\<lambda>s. No_match" "\<lambda>d f. True"
          example_db 5
          "\<lparr>data_title = ''X'', data_text = ''x'', data_pub_date = ''02.02.2020'',
            data_category = Some 1, data_location = None, data_image = None\<rparr>"
          nonempty_text 1 "''edited''", THEN conjunct2, THEN conjunct1, rule_format,
          of bob post_A]
    mutations_need_login_and_authorship
      [of "\<lparr>request_method = POST, request_user = Some alice\<rparr>" "\<lambda>s. No_match" "\<lambda>d f. True"
          example_db 5
          "\<lparr>data_title = ''X'', data_text = ''x'', data_pub_date = ''02.02.2020'',
            data_category = Some 1, data_location = None, data_image = None\<rparr>"
          nonempty_text 1 "''edited''", THEN conjunct2, THEN conjunct2, rule_format,
          of alice comment_1]
  by (simp add: is_authenticated_def example_defs)

section \<open>Adding a comment\<close>

text \<open>
  Claim C5. \<^verbatim>\<open>add_comment\<close> sends a request without a logged-in user to the login
  page, and fails with \<open>Http404\<close> when no post has the key. For a logged-in user and
  an existing post, whatever the post's visibility: when the form accepts the text, one
  comment is appended whose author is the user, whose post is the target and whose text
  is the cleaned text; when the form rejects the text, the database is unchanged and no
  error is raised; in both cases the response is the redirect to the detail page of the
  post. The check of the text is a parameter; the example instantiates it with the
  spec's rule that a text is valid when it is not empty.
\<close>

theorem add_comment_flow:
  "(\<not> is_authenticated req \<longrightarrow>
       add_comment text_clean d now req pk data = (Inr (HttpResponseRedirect Login), d))
   \<and> (is_authenticated req \<and> (\<forall>p \<in> set (posts d). post_pk p \<noteq> pk) \<longrightarrow>
       add_comment text_clean d now req pk data = (Inl Http404, d))
   \<and> (\<forall>u p. request_user req = Some u \<and> distinct (map post_pk (posts d))
          \<and> p \<in> set (posts d) \<and> post_pk p = pk \<longrightarrow>
          (\<forall>t. text_clean data = Some t \<longrightarrow>
             (\<exists>c. add_comment text_clean d now req pk data
                    = (Inr (HttpResponseRedirect (Post_detail pk)),
                       d\<lparr>comments := comments d @ [c]\<rparr>)
                \<and> comment_author c = user_pk u \<and> comment_post c = post_pk p
                \<and> comment_text c = t))
        \<and> (text_clean data = None \<longrightarrow>
             add_comment text_clean d now req pk data
               = (Inr (HttpResponseRedirect (Post_detail pk)), d)))"
proof (intro conjI allI impI)
  assume "\<not> is_authenticated req"
  then show "add_comment text_clean d now req pk data = (Inr (HttpResponseRedirect Login), d)"
    by (simp add: add_comment_def login_required_def)
next
  assume a: "is_authenticated req \<and> (\<forall>p \<in> set (posts d). post_pk p \<noteq> pk)"
  then have "filter (\<lambda>p. post_pk p = pk) (posts d) = []"
    by (simp add: filter_empty_conv)
  with a show "add_comment text_clean d now req pk data = (Inl Http404, d)"
    by (simp add: add_comment_def login_required_def get_object_or_404_def)
next
  fix u p t
  assume a: "request_user req = Some u \<and> distinct (map post_pk (posts d))
          \<and> p \<in> set (posts d) \<and> post_pk p = pk"
    and valid: "text_clean data = Some t"
  from a have object: "get_object_or_404 (posts d) (\<lambda>p. post_pk p = pk) = Inr p"
    using filter_key_unique [of post_pk "posts d" p] by (auto simp: get_object_or_404_def)
  let ?c = "\<lparr>comment_pk = next_pk comment_pk (comments d), comment_text = t,
             comment_author = user_pk u, comment_post = post_pk p,
             comment_created_at = now\<rparr>"
  have "add_comment text_clean d now req pk data
          = (Inr (HttpResponseRedirect (Post_detail pk)), d\<lparr>comments := comments d @ [?c]\<rparr>)"
    using a valid
    by (simp add: add_comment_def login_required_def is_authenticated_def object)
  then show "\<exists>c. add_comment text_clean d now req pk data
                    = (Inr (HttpResponseRedirect (Post_detail pk)),
                       d\<lparr>comments := comments d @ [c]\<rparr>)
                \<and> comment_author c = user_pk u \<and> comment_post c = post_pk p
                \<and> comment_text c = t"
    by (intro exI [of _ ?c]) simp
next
  fix u p
  assume a: "request_user req = Some u \<and> distinct (map post_pk (posts d))
          \<and> p \<in> set (posts d) \<and> post_pk p = pk"
    and invalid: "text_clean data = None"
  from a have object: "get_object_or_404 (posts d) (\<lambda>p. post_pk p = pk) = Inr p"
    using filter_key_unique [of post_pk "posts d" p] by (auto simp: get_object_or_404_def)
  show "add_comment text_clean d now req pk data
               = (Inr (HttpResponseRedirect (Post_detail pk)), d)"
    using a invalid
    by (simp add: add_comment_def login_required_def is_authenticated_def object)
qed

theorem add_comment_example:
  "add_comment nonempty_text example_db example_now
       \<lparr>request_method = POST, request_user = None\<rparr> 5 ''nice''
     = (Inr (HttpResponseRedirect Login), example_db)
   \<and> add_comment nonempty_text example_db example_now
       \<lparr>request_method = POST, request_user = Some alice\<rparr> 4 ''nice''
     = (Inl Http404, example_db)
   \<and> (\<exists>c. add_comment nonempty_text example_db example_now
              \<lparr>request_method = POST, request_user = Some alice\<rparr> 5 ''nice''
            = (Inr (HttpResponseRedirect (Post_detail 5)),
               example_db\<lparr>comments := comments example_db @ [c]\<rparr>)
          \<and> comment_author c = 1 \<and> comment_post c = 5 \<and> comment_text c = ''nice'')
   \<and> add_comment nonempty_text example_db example_now
       \<lparr>request_method = POST, request_user = Some alice\<rparr> 6 ''''
     = (Inr (HttpResponseRedirect (Post_detail 6)), example_db)"
proof -
  have keys: "distinct (map post_pk (posts example_db))"
    by (simp add: example_defs)
  note flow = add_comment_flow [of _ nonempty_text example_db example_now]
  have anonymous: "add_comment nonempty_text example_db example_now
       \<lparr>request_method = POST, request_user = None\<rparr> 5 ''nice''
     = (Inr (HttpResponseRedirect Login), example_db)"
    using flow [of "\<lparr>request_method = POST, request_user = None\<rparr>" 5 "''nice''"]
    by (simp add: is_authenticated_def)
  have missing: "add_comment nonempty_text example_db example_now
       \<lparr>request_method = POST, request_user = Some alice\<rparr> 4 ''nice''
     = (Inl Http404, example_db)"
    using flow [of "\<lparr>request_method = POST, request_user = Some alice\<rparr>" 4 "''nice''"]
    by (simp add: is_authenticated_def example_defs)
  have valid: "\<exists>c. add_comment nonempty_text example_db example_now
              \<lparr>request_method = POST, request_user = Some alice\<rparr> 5 ''nice''
            = (Inr (HttpResponseRedirect (Post_detail 5)),
               example_db\<lparr>comments := comments example_db @ [c]\<rparr>)
          \<and> comment_author c = 1 \<and> comment_post c = 5 \<and> comment_text c = ''nice''"
    using flow [of "\<lparr>request_method = POST, request_user = Some alice\<rparr>" 5 "''nice''",
        THEN conjunct2, THEN conjunct2, rule_format, of alice post_A, THEN conjunct1,
        rule_format, of "''nice''"] keys
    by (simp add: nonempty_text_def) (simp add: example_defs)
  have invalid: "add_comment nonempty_text example_db example_now
       \<lparr>request_method = POST, request_user = Some alice\<rparr> 6 ''''
     = (Inr (HttpResponseRedirect (Post_detail 6)), example_db)"
    using flow [of "\<lparr>request_method = POST, request_user = Some alice\<rparr>" 6 "''''",
        THEN conjunct2, THEN conjunct2, rule_format, of alice post_unpublished,
        THEN conjunct2] keys
    by (simp add: nonempty_text_def) (simp add: example_defs)
  show ?thesis
    using anonymous missing valid invalid by blast
qed

lemma save_existing:
  assumes "distinct (map pk rows)" and "x \<in> set rows" and "pk y = pk x"
  shows "save pk y rows = map (\<lambda>r. if r = x then y else r) rows"
proof -
  have same: "pk r = pk x \<longleftrightarrow> r = x" if "r \<in> set rows" for r
    using assms(1,2) that by (metis distinct_map inj_onD)
  have "list_ex (\<lambda>r. pk r = pk y) rows"
    using assms(2,3) by (auto simp: list_ex_iff)
  moreover have "map (\<lambda>r. if pk r = pk y then y else r) rows
                 = map (\<lambda>r. if r = x then y else r) rows"
    using same assms(3) by (intro map_cong) auto
  ultimately show ?thesis by (simp add: save_def)
qed

lemma map_replace_preserves:
  assumes "f y = f x"
  shows "map f (map (\<lambda>r. if r = x then y else r) rows) = map f rows"
  using assms by (induction rows) auto

section \<open>Updating the profile\<close>

text \<open>
  Claim C8. The profile update sends a request without a logged-in user to the login
  page. For a logged-in user who is a row of the table (keys being unique), whatever
  the form data: the keys and the passwords of all users are unchanged, every row of
  another user is unchanged, and so are the other tables; the view takes no key from
  the request, and the row it writes is the one of \<^verbatim>\<open>request.user\<close>. When the form is
  valid, that row takes \<open>first_name\<close>, \<open>last_name\<close>, \<open>email\<close> and \<open>username\<close> from
  the cleaned data, and the response is the redirect to the profile under the new
  \<open>username\<close>.
\<close>

theorem profile_update_frame:
  "(\<not> is_authenticated req \<longrightarrow>
       ProfileUpdateView profile_clean d req data = (Inr (HttpResponseRedirect Login), d))
   \<and> (\<forall>me. request_user req = Some me \<and> distinct (map user_pk (users d))
          \<and> me \<in> set (users d) \<longrightarrow>
        (\<exists>resp d'. ProfileUpdateView profile_clean d req data = (resp, d')
           \<and> categories d' = categories d \<and> posts d' = posts d
           \<and> comments d' = comments d
           \<and> map user_pk (users d') = map user_pk (users d)
           \<and> map password (users d') = map password (users d)
           \<and> (\<forall>i. i < length (users d) \<and> user_pk (users d ! i) \<noteq> user_pk me \<longrightarrow>
                 users d' ! i = users d ! i)
           \<and> (\<forall>cleaned. request_method req = POST
                  \<and> profile_clean d me data = Some cleaned \<longrightarrow>
                  resp = Inr (HttpResponseRedirect (Profile (data_username cleaned)))
                  \<and> (\<exists>me'. me' \<in> set (users d') \<and> user_pk me' = user_pk me
                        \<and> password me' = password me
                        \<and> username me' = data_username cleaned
                        \<and> first_name me' = data_first_name cleaned
                        \<and> last_name me' = data_last_name cleaned
                        \<and> email me' = data_email cleaned))))"
proof (intro conjI allI impI)
  assume "\<not> is_authenticated req"
  then show "ProfileUpdateView profile_clean d req data = (Inr (HttpResponseRedirect Login), d)"
    unfolding ProfileUpdateView_def by (rule anonymous_is_sent_to_login)
next
  fix me
  assume a: "request_user req = Some me \<and> distinct (map user_pk (users d))
          \<and> me \<in> set (users d)"
  then have user: "request_user req = Some me" and keys: "distinct (map user_pk (users d))"
    and row: "me \<in> set (users d)"
    by simp_all
  let ?goal = "\<lambda>resp d'. ProfileUpdateView profile_clean d req data = (resp, d')
           \<and> categories d' = categories d \<and> posts d' = posts d
           \<and> comments d' = comments d
           \<and> map user_pk (users d') = map user_pk (users d)
           \<and> map password (users d') = map password (users d)
           \<and> (\<forall>i. i < length (users d) \<and> user_pk (users d ! i) \<noteq> user_pk me \<longrightarrow>
                 users d' ! i = users d ! i)
           \<and> (\<forall>cleaned. request_method req = POST
                  \<and> profile_clean d me data = Some cleaned \<longrightarrow>
                  resp = Inr (HttpResponseRedirect (Profile (data_username cleaned)))
                  \<and> (\<exists>me'. me' \<in> set (users d') \<and> user_pk me' = user_pk me
                        \<and> password me' = password me
                        \<and> username me' = data_username cleaned
                        \<and> first_name me' = data_first_name cleaned
                        \<and> last_name me' = data_last_name cleaned
                        \<and> email me' = data_email cleaned))"
  have view: "ProfileUpdateView profile_clean d req data =
     (case request_method req of
        GET \<Rightarrow> (Inr (TemplateResponse ''blog/user.html''), d)
      | POST \<Rightarrow>
          (case profile_clean d me data of
             None \<Rightarrow> (Inr (TemplateResponse ''blog/user.html''), d)
           | Some cleaned \<Rightarrow>
               (Inr (HttpResponseRedirect
                       (Profile (username (ProfileUpdateForm_save me cleaned)))),
                d\<lparr>users := save user_pk (ProfileUpdateForm_save me cleaned) (users d)\<rparr>)))"
    using user
    by (simp add: ProfileUpdateView_def LoginRequiredMixin_dispatch_def is_authenticated_def)
  show "\<exists>resp d'. ?goal resp d'"
  proof (cases "request_method req = POST \<and> profile_clean d me data \<noteq> None")
    case False
    then have "ProfileUpdateView profile_clean d req data
                 = (Inr (TemplateResponse ''blog/user.html''), d)"
      by (auto simp: view split: http_method.splits option.splits)
    with False have "?goal (Inr (TemplateResponse ''blog/user.html'')) d"
      by auto
    then show ?thesis by blast
  next
    case True
    then obtain cleaned where post: "request_method req = POST"
      and cleaned: "profile_clean d me data = Some cleaned"
      by auto
    let ?me' = "ProfileUpdateForm_save me cleaned"
    let ?users' = "map (\<lambda>r. if r = me then ?me' else r) (users d)"
    have saved: "save user_pk ?me' (users d) = ?users'"
      by (rule save_existing [OF keys row]) (simp add: ProfileUpdateForm_save_def)
    have result: "ProfileUpdateView profile_clean d req data
            = (Inr (HttpResponseRedirect (Profile (data_username cleaned))),
               d\<lparr>users := ?users'\<rparr>)"
      by (simp add: view post cleaned saved) (simp add: ProfileUpdateForm_save_def)
    have pks: "map user_pk ?users' = map user_pk (users d)"
      by (rule map_replace_preserves) (simp add: ProfileUpdateForm_save_def)
    have passwords: "map password ?users' = map password (users d)"
      by (rule map_replace_preserves) (simp add: ProfileUpdateForm_save_def)
    have others: "\<forall>i. i < length (users d) \<and> user_pk (users d ! i) \<noteq> user_pk me \<longrightarrow>
                     ?users' ! i = users d ! i"
      by auto
    have mine: "?me' \<in> set ?users'"
      using row by auto
    have fields: "user_pk ?me' = user_pk me \<and> password ?me' = password me
                  \<and> username ?me' = data_username cleaned
                  \<and> first_name ?me' = data_first_name cleaned
                  \<and> last_name ?me' = data_last_name cleaned
                  \<and> email ?me' = data_email cleaned"
      by (simp add: ProfileUpdateForm_save_def)
    have "?goal (Inr (HttpResponseRedirect (Profile (data_username cleaned))))
            (d\<lparr>users := ?users'\<rparr>)"
      using result pks passwords others mine fields cleaned
      by (simp del: set_map map_map) blast
    then show ?thesis by blast
  qed
qed


theorem profile_update_example:
  "ProfileUpdateView (\<lambda>d u f. if data_username f = [] then None else Some f) example_db
       \<lparr>request_method = POST, request_user = None\<rparr>
       \<lparr>data_first_name = ''Alicia'', data_last_name = ''A'', data_email = ''a@example.org'',
        data_username = ''alicia''\<rparr>
     = (Inr (HttpResponseRedirect Login), example_db)
   \<and> (\<exists>resp d'. ProfileUpdateView
                     (\<lambda>d u f. if data_username f = [] then None else Some f) example_db
                     \<lparr>request_method = POST, request_user = Some alice\<rparr>
                     \<lparr>data_first_name = ''Alicia'', data_last_name = ''A'',
                      data_email = ''a@example.org'', data_username = ''alicia''\<rparr>
                   = (resp, d')
         \<and> resp = Inr (HttpResponseRedirect (Profile ''alicia''))
         \<and> map password (users d') = [''hash1'', ''hash2'']
         \<and> map user_pk (users d') = [1, 2]
         \<and> users d' ! 1 = bob
         \<and> posts d' = posts example_db \<and> comments d' = comments example_db)"
proof -
  let ?clean = "\<lambda>(d::db) (u::user) f. if data_username f = [] then None else Some f"
  let ?data = "\<lparr>data_first_name = ''Alicia'', data_last_name = ''A'',
                data_email = ''a@example.org'', data_username = ''alicia''\<rparr>"
  note frame = profile_update_frame [of _ ?clean example_db ?data]
  have anonymous: "ProfileUpdateView ?clean example_db
       \<lparr>request_method = POST, request_user = None\<rparr> ?data
     = (Inr (HttpResponseRedirect Login), example_db)"
    using frame [of "\<lparr>request_method = POST, request_user = None\<rparr>"]
    by (simp add: is_authenticated_def)
  have "request_user \<lparr>request_method = POST, request_user = Some alice\<rparr> = Some alice
        \<and> distinct (map user_pk (users example_db)) \<and> alice \<in> set (users example_db)"
    by (simp add: example_defs)
  with frame [of "\<lparr>request_method = POST, request_user = Some alice\<rparr>",
      THEN conjunct2, rule_format, of alice]
  obtain resp d' where
    view: "ProfileUpdateView ?clean example_db
             \<lparr>request_method = POST, request_user = Some alice\<rparr> ?data = (resp, d')"
    and tables: "posts d' = posts example_db" "comments d' = comments example_db"
    and keys: "map user_pk (users d') = map user_pk (users example_db)"
    and passwords: "map password (users d') = map password (users example_db)"
    and others: "\<And>i. i < length (users example_db)
                   \<and> user_pk (users example_db ! i) \<noteq> user_pk alice
                   \<Longrightarrow> users d' ! i = users example_db ! i"
    and success: "\<And>cleaned. request_method
                      \<lparr>request_method = POST, request_user = Some alice\<rparr> = POST
                    \<and> ?clean example_db alice ?data = Some cleaned
                    \<Longrightarrow> resp = Inr (HttpResponseRedirect (Profile (data_username cleaned)))"
    by blast
  have "resp = Inr (HttpResponseRedirect (Profile ''alicia''))"
    using success [of ?data] by simp
  moreover have "map password (users d') = [''hash1'', ''hash2'']"
    using passwords by (simp add: example_defs)
  moreover have "map user_pk (users d') = [1, 2]"
    using keys by (simp add: example_defs)
  moreover have "users d' ! 1 = bob"
    using others [of 1] by (simp add: example_defs)
  ultimately show ?thesis
    using anonymous view tables
    by (intro conjI exI [of _ resp] exI [of _ d']; simp)
qed

section \<open>Lemmas on the date formats\<close>

lemma strptime_date_only: "strptime ''01.01.2020'' ''%d.%m.%Y''
   = Some \<lparr>year = 2020, month = 1, day = 1, hour = 0, minute = 0, second = 0\<rparr>"
  by (simp add: strptime_def match_alternative_def any_digit_def digits_of_def is_digit_def
      digit_val_def field_value_def days_in_month_def is_leap_def is_space_def Let_def)

lemma strptime_with_time: "strptime ''01.01.2020 00:00:00'' ''%d.%m.%Y'' = None"
  by (simp add: strptime_def match_alternative_def any_digit_def digits_of_def is_digit_def
      digit_val_def field_value_def days_in_month_def is_leap_def is_space_def Let_def)

lemma strptime_widget_format:
  "strptime ''01.01.2020 00:00:00'' PostForm_widget_format
   = Some \<lparr>year = 2020, month = 1, day = 1, hour = 0, minute = 0, second = 0\<rparr>"
  by (simp add: PostForm_widget_format_def strptime_def match_alternative_def any_digit_def
      digits_of_def is_digit_def
      digit_val_def field_value_def days_in_month_def is_leap_def is_space_def Let_def)

lemma strip_examples:
  "strip ''01.01.2020 00:00:00'' = ''01.01.2020 00:00:00''"
  "strip ''01.01.2020'' = ''01.01.2020''"
  by (simp_all add: strip_def is_space_def)

lemma timestamp_2020:
  "timestamp \<lparr>year = 2020, month = 1, day = 1, hour = 0, minute = 0, second = 0\<rparr>
     = 1577836800"
  by (simp add: timestamp_def days_before_year_def days_before_month_def)


section \<open>Creating a post\<close>

text \<open>
  Claim C6. The claim is that the post form parses \<open>pub_date\<close> from the format
  \<^verbatim>\<open>DD.MM.YYYY\<close>, that a submission with the date text \<^verbatim>\<open>01.01.2020 00:00:00\<close>
  succeeds, that the new post has the current user as its author and that the response
  redirects to the author's profile. On the code the second part fails: the only input
  format is \<^verbatim>\<open>%d.%m.%Y\<close>, so the text with a time is rejected, the form is rendered
  again and no post is created, although the format of the field's own widget,
  \<^verbatim>\<open>%d.%m.%Y %H:%M:%S\<close>, reads that very text. The date text \<^verbatim>\<open>01.01.2020\<close> is accepted
  (the other fields being valid): a post with the current user as author and that date
  is appended, and the response redirects to the profile of the user. Both hold for a
  logged-in user, a \<^verbatim>\<open>POST\<close> request and an ISO parser that does not read the text.
\<close>

theorem post_create_date_formats:
  "(parse_datetime ''01.01.2020 00:00:00'' = No_match \<and> request_user req = Some u
      \<and> request_method req = POST \<and> data_pub_date data = ''01.01.2020 00:00:00'' \<longrightarrow>
      PostCreateView parse_datetime fields_ok is_published_default d now req data
        = (Inr (TemplateResponse ''blog/create.html''), d))
   \<and> strptime ''01.01.2020 00:00:00'' PostForm_widget_format
        = Some \<lparr>year = 2020, month = 1, day = 1, hour = 0, minute = 0, second = 0\<rparr>
   \<and> (parse_datetime ''01.01.2020'' = No_match \<and> request_user req = Some u
        \<and> request_method req = POST \<and> data_pub_date data = ''01.01.2020''
        \<and> fields_ok d data \<longrightarrow>
        (\<exists>p. PostCreateView parse_datetime fields_ok is_published_default d now req data
                = (Inr (HttpResponseRedirect (Profile (username u))),
                   d\<lparr>posts := posts d @ [p]\<rparr>)
           \<and> author p = user_pk u \<and> pub_date p = 1577836800
           \<and> title p = data_title data))"
proof (intro conjI impI)
  assume a: "parse_datetime ''01.01.2020 00:00:00'' = No_match \<and> request_user req = Some u
      \<and> request_method req = POST \<and> data_pub_date data = ''01.01.2020 00:00:00''"
  then have "DateTimeField_to_python parse_datetime PostForm_input_formats
               (data_pub_date data) = None"
    by (simp add: DateTimeField_to_python_def PostForm_input_formats_def strip_examples
        strptime_with_time)
  then have "PostForm_clean parse_datetime fields_ok d data = None"
    by (simp add: PostForm_clean_def)
  with a show "PostCreateView parse_datetime fields_ok is_published_default d now req data
        = (Inr (TemplateResponse ''blog/create.html''), d)"
    by (simp add: PostCreateView_def LoginRequiredMixin_dispatch_def is_authenticated_def)
next
  show "strptime ''01.01.2020 00:00:00'' PostForm_widget_format
        = Some \<lparr>year = 2020, month = 1, day = 1, hour = 0, minute = 0, second = 0\<rparr>"
    by (rule strptime_widget_format)
next
  assume a: "parse_datetime ''01.01.2020'' = No_match \<and> request_user req = Some u
        \<and> request_method req = POST \<and> data_pub_date data = ''01.01.2020''
        \<and> fields_ok d data"
  let ?dt = "\<lparr>year = 2020, month = 1, day = 1, hour = 0, minute = 0, second = 0\<rparr>"
  from a have "DateTimeField_to_python parse_datetime PostForm_input_formats
               (data_pub_date data) = Some ?dt"
    by (simp add: DateTimeField_to_python_def PostForm_input_formats_def strip_examples
        strptime_date_only)
  with a have clean: "PostForm_clean parse_datetime fields_ok d data = Some ?dt"
    by (simp add: PostForm_clean_def)
  let ?p = "PostForm_construct_instance
              \<lparr>post_pk = next_pk post_pk (posts d), title = [], post_text = [],
               pub_date = 0, is_published = is_published_default, author = user_pk u,
               category = None, location = None, image = None, created_at = now\<rparr>
              data ?dt"
  have "PostCreateView parse_datetime fields_ok is_published_default d now req data
          = (Inr (HttpResponseRedirect (Profile (username u))), d\<lparr>posts := posts d @ [?p]\<rparr>)"
    using a clean
    by (simp add: PostCreateView_def LoginRequiredMixin_dispatch_def is_authenticated_def
        PostCreateView_form_valid_def)
  moreover have "author ?p = user_pk u \<and> pub_date ?p = 1577836800
                 \<and> title ?p = data_title data"
    using timestamp_2020 by (simp add: PostForm_construct_instance_def)
  ultimately show "\<exists>p. PostCreateView parse_datetime fields_ok is_published_default d now
                        req data
                = (Inr (HttpResponseRedirect (Profile (username u))),
                   d\<lparr>posts := posts d @ [p]\<rparr>)
           \<and> author p = user_pk u \<and> pub_date p = 1577836800
           \<and> title p = data_title data"
    by (intro exI [of _ ?p]) simp
qed

theorem post_create_example:
  "PostCreateView (\<lambda>s. No_match) (\<lambda>d f. True) True example_db example_now
       \<lparr>request_method = POST, request_user = Some alice\<rparr>
       \<lparr>data_title = ''A'', data_text = ''first'', data_pub_date = ''01.01.2020 00:00:00'',
        data_category = Some 1, data_location = None, data_image = None\<rparr>
     = (Inr (TemplateResponse ''blog/create.html''), example_db)
   \<and> (\<exists>p. PostCreateView (\<lambda>s. No_match) (\<lambda>d f. True) True example_db example_now
              \<lparr>request_method = POST, request_user = Some alice\<rparr>
              \<lparr>data_title = ''A'', data_text = ''first'', data_pub_date = ''01.01.2020'',
               data_category = Some 1, data_location = None, data_image = None\<rparr>
            = (Inr (HttpResponseRedirect (Profile ''alice'')),
               example_db\<lparr>posts := posts example_db @ [p]\<rparr>)
          \<and> author p = 1 \<and> pub_date p = 1577836800 \<and> title p = ''A'')"
  using post_create_date_formats
      [of "\<lambda>s. No_match" "\<lparr>request_method = POST, request_user = Some alice\<rparr>" alice
          "\<lparr>data_title = ''A'', data_text = ''first'',
            data_pub_date = ''01.01.2020 00:00:00'',
            data_category = Some 1, data_location = None, data_image = None\<rparr>"
          "\<lambda>d f. True" True example_db example_now]
    post_create_date_formats
      [of "\<lambda>s. No_match" "\<lparr>request_method = POST, request_user = Some alice\<rparr>" alice
          "\<lparr>data_title = ''A'', data_text = ''first'', data_pub_date = ''01.01.2020'',
            data_category = Some 1, data_location = None, data_image = None\<rparr>"
          "\<lambda>d f. True" True example_db example_now]
  by (simp add: alice_def)

end
